theory Spec2Isabelle
  imports Complex_Main "HOL-Library.Multiset" "HOL-Library.Product_Lexorder"
    "HOL-Library.Log_Nat"
begin

section \<open>Access gate (authorizer.js)\<close>

text \<open>
  The authorizer reads the header \<^verbatim>\<open>x-api-key\<close> of the event and the environment
  variable \<^verbatim>\<open>AUTH_TOKEN\<close>. Both reads may give \<^verbatim>\<open>undefined\<close>, modelled by
  \<open>None\<close>; \<^verbatim>\<open>===\<close> on two strings or \<^verbatim>\<open>undefined\<close> is equality of the options.
\<close>

datatype effect = Allow | Deny

record auth_event =
  headers :: "string \<rightharpoonup> string"
  routeArn :: "string option"

record policy =
  principalId :: string
  policy_Version :: string
  policy_Action :: string
  policy_Effect :: effect
  policy_Resource :: string
  context_user :: string

text \<open>\<^verbatim>\<open>x || d\<close> on a string that may be undefined: the empty string is falsy too.\<close>

definition or_default :: "string option \<Rightarrow> string \<Rightarrow> string" where
  "or_default x d = (case x of None \<Rightarrow> d | Some s \<Rightarrow> if s = [] then d else s)"

definition authorize :: "string option \<Rightarrow> auth_event \<Rightarrow> policy" where
  "authorize AUTH_TOKEN event =
     (let token = headers event ''x-api-key'';
          expectedToken = AUTH_TOKEN
      in if token = expectedToken then
           \<lparr> principalId = ''user'', policy_Version = ''2012-10-17'',
             policy_Action = ''execute-api:Invoke'', policy_Effect = Allow,
             policy_Resource = or_default (routeArn event) ''*'',
             context_user = ''trusted-client'' \<rparr>
         else
           \<lparr> principalId = ''user'', policy_Version = ''2012-10-17'',
             policy_Action = ''execute-api:Invoke'', policy_Effect = Deny,
             policy_Resource = or_default (routeArn event) ''*'',
             context_user = ''unauthorized'' \<rparr>)"

section \<open>Task records (ganttBuilder.js)\<close>

text \<open>
  A JavaScript number is \<open>NaN\<close>, an infinity, or a finite double, which is given by its
  exact rational value. The two zeros are one: the builder replaces a zero completion
  by \<open>0\<close> before it uses it, and no later step produces a negative zero. The field
  \<^verbatim>\<open>PercentComplete\<close> arrives from JSON as any primitive value or is absent.
\<close>

datatype jsnum = NaN | Num rat | PosInf | NegInf

datatype jsval = Undefined | Null | Bool bool | Number jsnum | String string

text \<open>
  Calendar dates are day numbers (days since 1970-01-01). \<open>Start_Date\<close> and \<open>End_Date\<close>
  are the fields \<^verbatim>\<open>Start Date\<close> and \<^verbatim>\<open>End Date\<close> as \<^verbatim>\<open>parseISO\<close> reads them, for the grid
  and the bars. The sort reads the field \<^verbatim>\<open>End Date\<close> with \<^verbatim>\<open>new Date\<close> instead, which
  does not accept every string that \<^verbatim>\<open>parseISO\<close> accepts: \<open>End_Date_native\<close> is that
  reading, \<open>None\<close> for an invalid date. \<^verbatim>\<open>Warning\<close> is a string or absent.
\<close>

record task =
  Component_Group :: string
  Aircraft :: string
  MRO :: string
  Warning :: "string option"
  Start_Date :: int
  End_Date :: int
  End_Date_native :: "int option"
  PercentComplete :: jsval

subsection \<open>Severity class\<close>

text \<open>
  \<^verbatim>\<open>Warning === 'Work Stoppage' ? 'warning-critical'
     : Warning && Warning !== 'N/A' ? 'warning-caution' : ''\<close>
\<close>

definition truthy_str :: "string option \<Rightarrow> bool" where
  "truthy_str w = (case w of None \<Rightarrow> False | Some s \<Rightarrow> s \<noteq> [])"

definition warnClass :: "string option \<Rightarrow> string" where
  "warnClass w =
     (if w = Some ''Work Stoppage'' then ''warning-critical''
      else if truthy_str w \<and> w \<noteq> Some ''N/A'' then ''warning-caution''
      else [])"

subsection \<open>Completion fraction\<close>

text \<open>
  \<^verbatim>\<open>pct = +t.PercentComplete || 0\<close>. Unary plus is ECMAScript's ToNumber; its string
  case (StringToNumber) is a builtin taken as a parameter. \<^verbatim>\<open>x || 0\<close> replaces the
  falsy numbers \<open>NaN\<close> and \<open>0\<close> by \<open>0\<close>, so \<open>pct\<close> is never \<open>NaN\<close>.
\<close>

definition to_number :: "(string \<Rightarrow> jsnum) \<Rightarrow> jsval \<Rightarrow> jsnum" where
  "to_number StringToNumber v =
     (case v of Undefined \<Rightarrow> NaN
      | Null \<Rightarrow> Num 0
      | Bool b \<Rightarrow> Num (if b then 1 else 0)
      | Number n \<Rightarrow> n
      | String s \<Rightarrow> StringToNumber s)"

definition pct_of :: "(string \<Rightarrow> jsnum) \<Rightarrow> task \<Rightarrow> jsnum" where
  "pct_of StringToNumber t =
     (case to_number StringToNumber (PercentComplete t) of
        NaN \<Rightarrow> Num 0
      | Num r \<Rightarrow> if r = 0 then Num 0 else Num r
      | PosInf \<Rightarrow> PosInf
      | NegInf \<Rightarrow> NegInf)"

subsection \<open>Double arithmetic\<close>

text \<open>
  The result of an arithmetic operation on doubles is the exact result rounded to the
  nearest double, to the one with the even significand on a tie (IEEE 754 binary64).
  For a positive rational, \<open>binade\<close> is the exponent \<open>e\<close> with \<open>2^e \<le> x < 2^(e+1)\<close>; the
  doubles of that binade are the multiples of \<open>2^(e-52)\<close>, and below \<open>2^(-1022)\<close> the
  multiples of \<open>2^(-1074)\<close>. A result that rounds to \<open>2^1024\<close> or more is an infinity:
  its binade is above 1023, or rounding carries it out of binade 1023.
\<close>

definition binade :: "rat \<Rightarrow> int" where
  "binade x =
     (case quotient_of x of
        (a, b) \<Rightarrow>
          (let e0 = bitlen a - bitlen b
           in if 2 powi e0 \<le> x then e0 else e0 - 1))"

definition round_half_even :: "rat \<Rightarrow> int" where
  "round_half_even y =
     (let f = \<lfloor>y\<rfloor>; r = y - of_int f
      in if r < 1 / 2 then f
         else if 1 / 2 < r then f + 1
         else if even f then f else f + 1)"

definition to_double :: "rat \<Rightarrow> jsnum" where
  "to_double x =
     (if x = 0 then Num 0
      else
        let a = \<bar>x\<bar>;
            e = max (binade a) (- 1022);
            q = 2 powi (e - 52);
            m = round_half_even (a / q)
        in if 1024 \<le> e \<or> (e = 1023 \<and> m = 2 ^ 53) then (if x < 0 then NegInf else PosInf)
           else Num (if x < 0 then - (of_int m * q) else of_int m * q))"

text \<open>\<^verbatim>\<open>pct * 100\<close>, \<^verbatim>\<open>pct >= 1\<close> and \<^verbatim>\<open>Math.floor\<close>.\<close>

definition times100 :: "jsnum \<Rightarrow> jsnum" where
  "times100 x =
     (case x of NaN \<Rightarrow> NaN | Num r \<Rightarrow> to_double (r * 100) | PosInf \<Rightarrow> PosInf
      | NegInf \<Rightarrow> NegInf)"

definition ge_one :: "jsnum \<Rightarrow> bool" where
  "ge_one x = (case x of NaN \<Rightarrow> False | Num r \<Rightarrow> 1 \<le> r | PosInf \<Rightarrow> True | NegInf \<Rightarrow> False)"

definition Math_floor :: "jsnum \<Rightarrow> jsnum" where
  "Math_floor x =
     (case x of NaN \<Rightarrow> NaN | Num r \<Rightarrow> Num (of_int \<lfloor>r\<rfloor>) | PosInf \<Rightarrow> PosInf
      | NegInf \<Rightarrow> NegInf)"

text \<open>
  \<^verbatim>\<open>Number.prototype.toFixed(1)\<close>. A number that is not finite is printed by its name.
  Otherwise the sign comes first; a magnitude of \<open>10^21\<close> or more is printed by
  Number::toString, a builtin taken as a parameter; a smaller one as the integer \<open>n\<close>
  with \<open>n / 10\<close> nearest to it (the larger one on a tie), with one decimal.
\<close>

fun decimal :: "nat \<Rightarrow> string" where
  "decimal n =
     (if n < 10 then [''0123456789'' ! n]
      else decimal (n div 10) @ [''0123456789'' ! (n mod 10)])"

declare decimal.simps [simp del]

definition toFixed1 :: "(rat \<Rightarrow> string) \<Rightarrow> jsnum \<Rightarrow> string" where
  "toFixed1 NumberToString x =
     (case x of
        NaN \<Rightarrow> ''NaN''
      | PosInf \<Rightarrow> ''Infinity''
      | NegInf \<Rightarrow> ''-Infinity''
      | Num r \<Rightarrow>
          (if r < 0 then ''-'' else []) @
          (if 10 ^ 21 \<le> \<bar>r\<bar> then NumberToString \<bar>r\<bar>
           else let n = nat \<lfloor>\<bar>r\<bar> * 10 + 1 / 2\<rfloor>
                in decimal (n div 10) @ ''.'' @ decimal (n mod 10)))"

subsection \<open>Date grid\<close>

text \<open>
  The builder calls date-fns. \<^verbatim>\<open>min\<close> and \<^verbatim>\<open>max\<close> of an empty array are an invalid
  date (\<open>None\<close>), which \<^verbatim>\<open>addDays\<close> keeps. \<^verbatim>\<open>eachDayOfInterval\<close> lists the days from
  start to end; on a start after the end, release 2 throws a RangeError and releases
  from 3.0 on list the days in descending order; on an invalid date release 2 throws
  and the later ones return the empty list. The release in use is a parameter.
\<close>

datatype error = RangeError | TypeError | SyntaxError | ExternalFailure

datatype datefns = V2 | V3

definition min_dates :: "int list \<Rightarrow> int option" where
  "min_dates ds =
     fold (\<lambda>d result. case result of None \<Rightarrow> Some d
                        | Some r \<Rightarrow> if r > d then Some d else Some r) ds None"

definition max_dates :: "int list \<Rightarrow> int option" where
  "max_dates ds =
     fold (\<lambda>d result. case result of None \<Rightarrow> Some d
                        | Some r \<Rightarrow> if r < d then Some d else Some r) ds None"

definition addDays :: "int option \<Rightarrow> int \<Rightarrow> int option" where
  "addDays d n = map_option (\<lambda>x. x + n) d"

definition eachDayOfInterval :: "datefns \<Rightarrow> int option \<Rightarrow> int option \<Rightarrow> error + int list" where
  "eachDayOfInterval v start end =
     (case (start, end) of
        (Some a, Some b) \<Rightarrow>
          if a \<le> b then Inr [a..b]
          else (case v of V2 \<Rightarrow> Inl RangeError | V3 \<Rightarrow> Inr (rev [b..a]))
      | _ \<Rightarrow> (case v of V2 \<Rightarrow> Inl RangeError | V3 \<Rightarrow> Inr []))"

text \<open>\<^verbatim>\<open>Array.prototype.filter\<close> with a callback of the element and its index.\<close>

fun filter_indexed :: "('a \<Rightarrow> nat \<Rightarrow> bool) \<Rightarrow> 'a list \<Rightarrow> nat \<Rightarrow> 'a list" where
  "filter_indexed p [] i = []"
| "filter_indexed p (x # xs) i =
     (if p x i then x # filter_indexed p xs (Suc i) else filter_indexed p xs (Suc i))"

text \<open>
  The runtime of one call: the date-fns release, the builtins StringToNumber and
  Number::toString, and the two readings of the clock (\<^verbatim>\<open>new Date()\<close> in \<^verbatim>\<open>buildHTML\<close>
  and in \<^verbatim>\<open>getTimelineRange\<close>), as day numbers.
\<close>

record runtime =
  datefns_release :: datefns
  StringToNumber :: "string \<Rightarrow> jsnum"
  NumberToString :: "rat \<Rightarrow> string"
  now_build :: int
  now_range :: int

definition getTimelineRange :: "runtime \<Rightarrow> task list \<Rightarrow> error + int list" where
  "getTimelineRange rt tasks =
     (let startDates = map Start_Date tasks;
          endDates = map End_Date tasks
      in case eachDayOfInterval (datefns_release rt)
                (addDays (min_dates startDates) (- 3)) (addDays (max_dates endDates) 3) of
           Inl e \<Rightarrow> Inl e
         | Inr fullRange \<Rightarrow>
             Inr (filter_indexed (\<lambda>d i. i mod 2 = 0 \<or> d = now_range rt) fullRange 0))"

subsection \<open>Header\<close>

text \<open>
  The civil calendar behind \<^verbatim>\<open>format\<close> and \<^verbatim>\<open>isWeekend\<close>: year, month and day of a
  day number (proleptic Gregorian), and the weekday (1970-01-01 was a Thursday).
\<close>

definition civil :: "int \<Rightarrow> int \<times> int \<times> int" where
  "civil z0 =
     (let z = z0 + 719468;
          era = z div 146097;
          doe = z - era * 146097;
          yoe = (doe - doe div 1460 + doe div 36524 - doe div 146096) div 365;
          doy = doe - (365 * yoe + yoe div 4 - yoe div 100);
          mp = (5 * doy + 2) div 153;
          d = doy - (153 * mp + 2) div 5 + 1;
          m = (if mp < 10 then mp + 3 else mp - 9);
          y = yoe + era * 400
      in (if m \<le> 2 then y + 1 else y, m, d))"

definition month_year :: "int \<Rightarrow> int \<times> int" where
  "month_year d = (case civil d of (y, m, _) \<Rightarrow> (m, y))"

definition day_of_month :: "int \<Rightarrow> int" where
  "day_of_month d = (case civil d of (_, _, dd) \<Rightarrow> dd)"

definition isWeekend :: "int \<Rightarrow> bool" where
  "isWeekend d = ((d + 4) mod 7 = 0 \<or> (d + 4) mod 7 = 6)"

definition generateColGroup :: "int list \<Rightarrow> nat" where
  "generateColGroup grid = 2 + length grid"

text \<open>
  The month bands: runs of grid days of one month and year, each with its length.
  The band that is open at the last index is written there.
\<close>

fun month_bands :: "int \<times> int \<Rightarrow> nat \<Rightarrow> int list \<Rightarrow> ((int \<times> int) \<times> nat) list" where
  "month_bands current colspan [] = []"
| "month_bands current colspan (d # ds) =
     (let m = month_year d;
          closed = (if m = current then [] else [(current, colspan)]);
          current' = (if m = current then current else m);
          colspan' = (if m = current then colspan + 1 else 1)
      in closed @ (if ds = [] then [(current', colspan')] else [])
           @ month_bands current' colspan' ds)"

definition generateMonthHeader :: "int list \<Rightarrow> error + ((int \<times> int) \<times> nat) list" where
  "generateMonthHeader grid =
     (case grid of
        [] \<Rightarrow> Inl RangeError
      | d # _ \<Rightarrow> Inr (month_bands (month_year d) 0 grid))"

record day_th =
  weekend :: bool
  th_today_col :: bool
  day_label :: int

definition generateDayHeader :: "int list \<Rightarrow> int \<Rightarrow> day_th list" where
  "generateDayHeader grid today =
     map (\<lambda>d. \<lparr> weekend = isWeekend d, th_today_col = (d = today), day_label = day_of_month d \<rparr>)
       grid"

subsection \<open>Sorting\<close>

text \<open>
  \<^verbatim>\<open>earliestAc\<close> and \<^verbatim>\<open>earliestMro\<close> are objects used as dictionaries, keyed by
  the aircraft and by the facility. Reading a key of an object gives \<^verbatim>\<open>undefined\<close>
  (\<open>None\<close>), a date stored under it, or, for the names that every object inherits from
  its prototype, the inherited member, which is neither falsy nor comparable with a
  date. A date object holds a day or is invalid (\<open>None\<close>).
\<close>

datatype slot = DateObj "int option" | Inherited

definition Object_prototype_names :: "string list" where
  "Object_prototype_names =
     [''constructor'', ''__defineGetter__'', ''__defineSetter__'', ''hasOwnProperty'',
      ''__lookupGetter__'', ''__lookupSetter__'', ''isPrototypeOf'',
      ''propertyIsEnumerable'', ''toString'', ''valueOf'', ''__proto__'',
      ''toLocaleString'']"

definition empty_object :: "string \<rightharpoonup> slot" where
  "empty_object k = (if k \<in> set Object_prototype_names then Some Inherited else None)"

text \<open>\<^verbatim>\<open>end < earliest[k]\<close>: true only between two valid dates.\<close>

definition slot_less :: "slot \<Rightarrow> slot \<Rightarrow> bool" where
  "slot_less a b =
     (case (a, b) of (DateObj (Some x), DateObj (Some y)) \<Rightarrow> x < y | _ \<Rightarrow> False)"

text \<open>
  \<^verbatim>\<open>if (!earliest[k] || end < earliest[k]) earliest[k] = end\<close>, in one pass over the
  tasks for both dictionaries, with \<^verbatim>\<open>end = new Date(t['End Date'])\<close>.
\<close>

definition note_earliest :: "(string \<rightharpoonup> slot) \<Rightarrow> string \<Rightarrow> slot \<Rightarrow> (string \<rightharpoonup> slot)" where
  "note_earliest m k e =
     (case m k of None \<Rightarrow> m(k \<mapsto> e) | Some cur \<Rightarrow> if slot_less e cur then m(k \<mapsto> e) else m)"

definition earliest :: "task list \<Rightarrow> (string \<rightharpoonup> slot) \<times> (string \<rightharpoonup> slot)" where
  "earliest tasks =
     fold (\<lambda>t (earliestAc, earliestMro).
             (note_earliest earliestAc (Aircraft t) (DateObj (End_Date_native t)),
              note_earliest earliestMro (MRO t) (DateObj (End_Date_native t))))
       tasks (empty_object, empty_object)"

text \<open>
  The difference of two values read from a dictionary, or of two dates: a number
  between two valid dates and \<open>NaN\<close> (\<open>None\<close>) otherwise. \<open>NaN\<close> is falsy like \<open>0\<close>.
\<close>

definition slot_diff :: "slot option \<Rightarrow> slot option \<Rightarrow> int option" where
  "slot_diff a b =
     (case (a, b) of
        (Some (DateObj (Some x)), Some (DateObj (Some y))) \<Rightarrow> Some (x - y)
      | _ \<Rightarrow> None)"

definition truthy_diff :: "int option \<Rightarrow> bool" where
  "truthy_diff x = (case x of None \<Rightarrow> False | Some d \<Rightarrow> d \<noteq> 0)"

definition compare_tasks ::
  "(string \<rightharpoonup> slot) \<Rightarrow> (string \<rightharpoonup> slot) \<Rightarrow> task \<Rightarrow> task \<Rightarrow> int option" where
  "compare_tasks earliestAc earliestMro a b =
     (let mroDiff = slot_diff (earliestMro (MRO a)) (earliestMro (MRO b));
          acDiff = slot_diff (earliestAc (Aircraft a)) (earliestAc (Aircraft b))
      in if truthy_diff mroDiff then mroDiff
         else if truthy_diff acDiff then acDiff
         else slot_diff (Some (DateObj (End_Date_native a)))
                (Some (DateObj (End_Date_native b))))"

text \<open>
  \<^verbatim>\<open>Array.prototype.sort\<close> reads a comparator result of \<open>NaN\<close> as \<open>0\<close> and is stable: an
  element moves in front of another one only when the comparator is positive for the
  pair in input order. Insertion from the right is such a sort; where the comparator
  is a consistent order, as under the hypotheses of the theorems on the render order,
  every conforming sort gives the same result.
\<close>

definition nan_as_zero :: "int option \<Rightarrow> int" where
  "nan_as_zero v = (case v of None \<Rightarrow> 0 | Some d \<Rightarrow> d)"

fun insert_by :: "('a \<Rightarrow> 'a \<Rightarrow> int option) \<Rightarrow> 'a \<Rightarrow> 'a list \<Rightarrow> 'a list" where
  "insert_by cmp x [] = [x]"
| "insert_by cmp x (y # ys) =
     (if nan_as_zero (cmp x y) \<le> 0 then x # y # ys else y # insert_by cmp x ys)"

definition array_sort :: "('a \<Rightarrow> 'a \<Rightarrow> int option) \<Rightarrow> 'a list \<Rightarrow> 'a list" where
  "array_sort cmp xs = foldr (insert_by cmp) xs []"

definition sort_tasks :: "task list \<Rightarrow> task list" where
  "sort_tasks tasks =
     (case earliest tasks of
        (earliestAc, earliestMro) \<Rightarrow> array_sort (compare_tasks earliestAc earliestMro) tasks)"

subsection \<open>Body rows\<close>

datatype cell =
  FillCell (colspan_of: nat) (track_class: string) (complete: bool) (width_percent: jsnum)
    (percent_label: string)
| Td (today_col: bool)

datatype row =
  MroSpacer
| MroHeader string
| AcHeader string
| TaskRow (component_cell: string) (warning_class: string) (warning_text: string)
    (cells: "cell list")

text \<open>
  The bar cell: the class \<^verbatim>\<open>complete\<close> if \<^verbatim>\<open>pct >= 1\<close>, the width
  \<^verbatim>\<open>Math.floor(pct * 100)\<close> in percent, and the label \<^verbatim>\<open>(pct * 100).toFixed(1)\<close> with
  a percent sign. The width is kept as the number that the template prints.
\<close>

definition fill_cell :: "(rat \<Rightarrow> string) \<Rightarrow> nat \<Rightarrow> string \<Rightarrow> jsnum \<Rightarrow> cell" where
  "fill_cell num2str colspan wc pct =
     FillCell colspan wc (ge_one pct) (Math_floor (times100 pct))
       (toFixed1 num2str (times100 pct) @ ''%'')"

text \<open>
  The loop over the grid columns of one task row, from index \<open>i\<close>. The first day inside
  \<open>[start, end]\<close> gets the bar, whose colspan is the number of grid days inside the
  interval; the index then moves past the columns the bar covers
  (\<^verbatim>\<open>i += span - 1\<close>, and \<^verbatim>\<open>i++\<close> of the loop).
\<close>

function row_cells ::
  "(rat \<Rightarrow> string) \<Rightarrow> int list \<Rightarrow> int \<Rightarrow> int \<Rightarrow> int \<Rightarrow> string \<Rightarrow> jsnum \<Rightarrow> nat \<Rightarrow> bool
     \<Rightarrow> cell list" where
  "row_cells num2str grid today start end wc pct i placed =
     (if i < length grid then
        (if \<not> placed \<and> grid ! i \<ge> start \<and> grid ! i \<le> end then
           fill_cell num2str (length (filter (\<lambda>dt. dt \<ge> start \<and> dt \<le> end) grid)) wc pct
             # row_cells num2str grid today start end wc pct
                 (i + length (filter (\<lambda>dt. dt \<ge> start \<and> dt \<le> end) grid)) True
         else Td (grid ! i = today) # row_cells num2str grid today start end wc pct (i + 1) placed)
      else [])"
  by pat_completeness auto
termination
proof (relation "measure (\<lambda>(num2str, grid, today, start, end, wc, pct, i, placed). length grid - i)")
  show "wf (measure (\<lambda>(num2str, grid, today, start, end, wc, pct, i, placed). length grid - i))"
    by simp
next
  fix num2str :: "rat \<Rightarrow> string" and grid :: "int list" and today start "end" :: int
    and wc :: string and pct :: jsnum
    and i :: nat and placed :: bool
  assume i: "i < length grid"
    and inside: "\<not> placed \<and> start \<le> grid ! i \<and> grid ! i \<le> end"
  from i inside have "grid ! i \<in> set (filter (\<lambda>dt. dt \<ge> start \<and> dt \<le> end) grid)"
    by simp
  then have "0 < length (filter (\<lambda>dt. dt \<ge> start \<and> dt \<le> end) grid)"
    by (metis length_pos_if_in_set)
  with i show "((num2str, grid, today, start, end, wc, pct,
        i + length (filter (\<lambda>dt. dt \<ge> start \<and> dt \<le> end) grid), True),
       (num2str, grid, today, start, end, wc, pct, i, placed))
      \<in> measure (\<lambda>(num2str, grid, today, start, end, wc, pct, i, placed). length grid - i)"
    by (simp add: diff_less_mono2)
next
  fix num2str :: "rat \<Rightarrow> string" and grid :: "int list" and today start "end" :: int
    and wc :: string and pct :: jsnum
    and i :: nat and placed :: bool
  assume "i < length grid"
  then show "((num2str, grid, today, start, end, wc, pct, i + 1, placed),
       (num2str, grid, today, start, end, wc, pct, i, placed))
      \<in> measure (\<lambda>(num2str, grid, today, start, end, wc, pct, i, placed). length grid - i)"
    by simp
qed

declare row_cells.simps [simp del]

definition task_row :: "runtime \<Rightarrow> int list \<Rightarrow> task \<Rightarrow> row" where
  "task_row rt grid t =
     (let pct = pct_of (StringToNumber rt) t;
          wc = warnClass (Warning t)
      in TaskRow (Component_Group t) wc (or_default (Warning t) ''N/A'')
           (row_cells (NumberToString rt) grid (now_build rt) (Start_Date t) (End_Date t)
              wc pct 0 False))"

text \<open>
  The loop over the sorted tasks, with \<^verbatim>\<open>lastMro\<close> and \<^verbatim>\<open>lastAc\<close>: a facility header
  when the facility changes (after a spacer, unless it is the first), an aircraft header
  when the aircraft changes or the facility did, then the task's row.
\<close>

fun body_rows :: "runtime \<Rightarrow> int list \<Rightarrow> string \<Rightarrow> string \<Rightarrow> task list \<Rightarrow> row list" where
  "body_rows rt grid lastMro lastAc [] = []"
| "body_rows rt grid lastMro lastAc (t # ts) =
     (let mro_rows = (if MRO t \<noteq> lastMro
                      then (if lastMro \<noteq> [] then [MroSpacer] else []) @ [MroHeader (MRO t)]
                      else []);
          lastAc1 = (if MRO t \<noteq> lastMro then [] else lastAc);
          ac_rows = (if Aircraft t \<noteq> lastAc1 then [AcHeader (Aircraft t)] else [])
      in mro_rows @ ac_rows @ [task_row rt grid t] @ body_rows rt grid (MRO t) (Aircraft t) ts)"

subsection \<open>The document\<close>

record document =
  colgroup :: nat
  month_header :: "((int \<times> int) \<times> nat) list"
  day_header :: "day_th list"
  tbody :: "row list"

text \<open>
  Steps 2 and 3 of \<^verbatim>\<open>buildHTML\<close>, on the sorted copy: the grid, the body rows, then the
  template, whose month header throws on an empty grid.
\<close>

definition render_sorted :: "runtime \<Rightarrow> task list \<Rightarrow> error + document" where
  "render_sorted rt tasks =
     (case getTimelineRange rt tasks of
        Inl e \<Rightarrow> Inl e
      | Inr grid \<Rightarrow>
          (let body = body_rows rt grid [] [] tasks
           in case generateMonthHeader grid of
                Inl e \<Rightarrow> Inl e
              | Inr months \<Rightarrow>
                  Inr \<lparr> colgroup = generateColGroup grid, month_header = months,
                        day_header = generateDayHeader grid (now_build rt), tbody = body \<rparr>))"

text \<open>
  Arrays live in a store, addressed by their index in it. \<^verbatim>\<open>[...tasksRaw]\<close> allocates
  a new array with the elements of the caller's; \<^verbatim>\<open>tasks.sort\<close> writes the sorted
  elements back into the array it is called on. An omitted argument is \<open>None\<close> and
  defaults to a new empty array.
\<close>

type_synonym store = "task list list"

definition alloc :: "task list \<Rightarrow> store \<Rightarrow> nat \<times> store" where
  "alloc xs h = (length h, h @ [xs])"

definition sort_in_place :: "nat \<Rightarrow> store \<Rightarrow> store" where
  "sort_in_place a h = h[a := sort_tasks (h ! a)]"

definition buildHTML_store :: "runtime \<Rightarrow> nat option \<Rightarrow> store \<Rightarrow> (error + document) \<times> store" where
  "buildHTML_store rt tasksRaw h =
     (case (case tasksRaw of None \<Rightarrow> alloc [] h | Some a \<Rightarrow> (a, h)) of
        (raw, h0) \<Rightarrow>
          (case alloc (h0 ! raw) h0 of
             (tasks, h1) \<Rightarrow>
               (let h2 = sort_in_place tasks h1
                in (render_sorted rt (h2 ! tasks), h2))))"

text \<open>The value \<^verbatim>\<open>buildHTML\<close> returns for a given array of tasks.\<close>

definition buildHTML :: "runtime \<Rightarrow> task list \<Rightarrow> error + document" where
  "buildHTML rt tasksRaw = fst (buildHTML_store rt (Some 0) [tasksRaw])"

text \<open>The task rows of a body, in order.\<close>

fun is_task_row :: "row \<Rightarrow> bool" where
  "is_task_row (TaskRow _ _ _ _) = True"
| "is_task_row _ = False"

fun is_fill :: "cell \<Rightarrow> bool" where
  "is_fill (FillCell _ _ _ _ _) = True"
| "is_fill (Td _) = False"

text \<open>
  The grid columns a row's cells occupy, left to right: a bar cell occupies as many
  columns as its colspan, any other cell one. \<open>True\<close> marks a column under the bar.
\<close>

fun columns :: "cell list \<Rightarrow> bool list" where
  "columns [] = []"
| "columns (FillCell n _ _ _ _ # cs) = replicate n True @ columns cs"
| "columns (Td _ # cs) = False # columns cs"

section \<open>Render handler (handler.js)\<close>

text \<open>
  \<^verbatim>\<open>JSON.parse\<close> is a builtin, taken as a parameter; \<open>None\<close> is its SyntaxError. Its
  result is seen as the handler inspects it: \<^verbatim>\<open>null\<close>; a value without a property
  \<^verbatim>\<open>tasks\<close> (a number, string, boolean, array, or an object lacking the key); a value
  whose \<^verbatim>\<open>tasks\<close> is not an array; or a value whose \<^verbatim>\<open>tasks\<close> is an array of task
  records.
\<close>

datatype parsed_body = BodyNull | BodyNoTasks | BodyTasksNotArray | BodyTasks "task list"

record render_event =
  body :: "string option"

text \<open>
  What the handler's surroundings answer in one invocation: the Chromium path lookup,
  the JSON parser, and whether each browser call succeeds.
\<close>

record platform =
  executablePath :: "error + string"
  JSON_parse :: "string \<Rightarrow> parsed_body option"
  launch_ok :: bool
  newPage_ok :: bool
  setContent_ok :: bool
  screenshot :: "error + string"
  close_ok :: bool
  builder_runtime :: runtime

datatype response_body = ErrorJson string | Base64 string

record response =
  statusCode :: nat
  content_type :: "string option"
  response_body :: response_body
  isBase64Encoded :: bool

text \<open>
  The effects of an invocation that the claims speak about: the browser processes
  launched and not yet closed, and the calls of \<^verbatim>\<open>buildHTML\<close> made.
\<close>

record world =
  browsers_running :: nat
  buildHTML_calls :: nat

definition client_error :: "string \<Rightarrow> response" where
  "client_error msg =
     \<lparr> statusCode = 400, content_type = None, response_body = ErrorJson msg,
       isBase64Encoded = False \<rparr>"

text \<open>
  Lines 24 to 41: launch, new page, build the document and load it, screenshot, close.
  A call that fails rejects the handler's promise there; no later line runs.
\<close>

definition launch_and_capture :: "platform \<Rightarrow> task list \<Rightarrow> world \<Rightarrow> (error + response) \<times> world" where
  "launch_and_capture p tasks w =
     (if \<not> launch_ok p then (Inl ExternalFailure, w)
      else
        let w1 = w\<lparr> browsers_running := browsers_running w + 1 \<rparr> in
        if \<not> newPage_ok p then (Inl ExternalFailure, w1)
        else
          let w2 = w1\<lparr> buildHTML_calls := buildHTML_calls w1 + 1 \<rparr> in
          case buildHTML (builder_runtime p) tasks of
            Inl e \<Rightarrow> (Inl e, w2)
          | Inr doc \<Rightarrow>
              if \<not> setContent_ok p then (Inl ExternalFailure, w2)
              else
                (case screenshot p of
                   Inl e \<Rightarrow> (Inl e, w2)
                 | Inr png \<Rightarrow>
                     if \<not> close_ok p then (Inl ExternalFailure, w2)
                     else
                       (Inr \<lparr> statusCode = 200, content_type = Some ''image/png'',
                              response_body = Base64 png, isBase64Encoded = True \<rparr>,
                        w2\<lparr> browsers_running := browsers_running w2 - 1 \<rparr>)))"

text \<open>
  Lines 8 to 21. \<^verbatim>\<open>event.body || '{}'\<close> replaces a missing or empty body by the empty
  object. Reading \<^verbatim>\<open>.tasks\<close> of \<^verbatim>\<open>null\<close> throws a TypeError inside the \<^verbatim>\<open>try\<close>, which
  the \<^verbatim>\<open>catch\<close> answers like a syntax error.
\<close>

definition render :: "platform \<Rightarrow> render_event \<Rightarrow> world \<Rightarrow> (error + response) \<times> world" where
  "render p event w =
     (case executablePath p of
        Inl e \<Rightarrow> (Inl e, w)
      | Inr path \<Rightarrow>
          (case JSON_parse p (or_default (body event) ''{}'') of
             None \<Rightarrow> (Inr (client_error ''Malformed JSON''), w)
           | Some BodyNull \<Rightarrow> (Inr (client_error ''Malformed JSON''), w)
           | Some BodyNoTasks \<Rightarrow> (Inr (client_error ''Invalid or missing tasks array''), w)
           | Some BodyTasksNotArray \<Rightarrow>
               (Inr (client_error ''Invalid or missing tasks array''), w)
           | Some (BodyTasks tasks) \<Rightarrow> launch_and_capture p tasks w))"

section \<open>Notions used in the theorems\<close>

subsection \<open>The grid, in the specification's words\<close>

text \<open>
  The bounds of the grid as the specification states them: three days before the
  least start date and three days after the greatest end date; and its sampling: the
  days of the closed interval whose offset from the lower bound is even or that are
  today.
\<close>

definition lower_bound :: "task list \<Rightarrow> int" where
  "lower_bound tasks = Min (Start_Date ` set tasks) - 3"

definition upper_bound :: "task list \<Rightarrow> int" where
  "upper_bound tasks = Max (End_Date ` set tasks) + 3"

definition sampled_days :: "int \<Rightarrow> int \<Rightarrow> int \<Rightarrow> int list" where
  "sampled_days lo hi today = filter (\<lambda>d. even (d - lo) \<or> d = today) [lo..hi]"

subsection \<open>Sort keys\<close>

text \<open>
  The least end date among the tasks of a group. The keys that the builder's dictionaries
  and comparator amount to are those of the task's facility, of the task's aircraft (among
  all tasks with that aircraft, whatever their facility), and the task's own end date,
  compared in this order: triples of keys are ordered lexicographically.
\<close>

definition min_end :: "(task \<Rightarrow> bool) \<Rightarrow> task list \<Rightarrow> int" where
  "min_end P tasks = Min (set (map End_Date (filter P tasks)))"

definition builder_key :: "task list \<Rightarrow> task \<Rightarrow> int \<times> int \<times> int" where
  "builder_key tasks t =
     (min_end (\<lambda>u. MRO u = MRO t) tasks,
      min_end (\<lambda>u. Aircraft u = Aircraft t) tasks,
      End_Date t)"

text \<open>
  The lists on which the builder's dictionaries and comparator amount to these keys: no
  facility or aircraft is named like a member that every object inherits, and
  \<^verbatim>\<open>new Date\<close> reads every end date as the day that \<^verbatim>\<open>parseISO\<close> reads.
\<close>

definition plain_keys :: "task list \<Rightarrow> bool" where
  "plain_keys tasks =
     list_all (\<lambda>t. MRO t \<notin> set Object_prototype_names
                  \<and> Aircraft t \<notin> set Object_prototype_names) tasks"

definition native_dates_agree :: "task list \<Rightarrow> bool" where
  "native_dates_agree tasks = list_all (\<lambda>t. End_Date_native t = Some (End_Date t)) tasks"

text \<open>
  The order in the specification's words: the second key is the least end date of the
  pair of facility and aircraft, taken among that facility's tasks only.
\<close>

definition spec_key :: "task list \<Rightarrow> task \<Rightarrow> int \<times> int \<times> int" where
  "spec_key tasks t =
     (min_end (\<lambda>u. MRO u = MRO t) tasks,
      min_end (\<lambda>u. MRO u = MRO t \<and> Aircraft u = Aircraft t) tasks,
      End_Date t)"

definition spec_order :: "task list \<Rightarrow> task list" where
  "spec_order tasks = sort_key (spec_key tasks) tasks"

section \<open>Sample inputs\<close>

text \<open>
  A StringToNumber that knows four strings, as the builtin reads them (a decimal
  literal is the double nearest to it), and a Number::toString that knows \<open>10^21\<close>.
\<close>

definition sample_StringToNumber :: "string \<Rightarrow> jsnum" where
  "sample_StringToNumber s =
     (if s = ''0.5'' then Num (1 / 2) else if s = [] then Num 0
      else if s = ''1.5'' then Num (3 / 2)
      else if s = ''0.29'' then to_double (29 / 100) else NaN)"

definition sample_NumberToString :: "rat \<Rightarrow> string" where
  "sample_NumberToString r = (if r = 10 ^ 21 then ''1e+21'' else [])"

definition runtime_on :: "datefns \<Rightarrow> int \<Rightarrow> runtime" where
  "runtime_on v today =
     \<lparr> datefns_release = v, StringToNumber = sample_StringToNumber,
       NumberToString = sample_NumberToString, now_build = today, now_range = today \<rparr>"

text \<open>
  The task of the specification's scenario A: 2025-01-01 (day 20089) to 2025-01-10
  (day 20098), half complete.
\<close>

definition task_A :: task where
  "task_A =
     \<lparr> Component_Group = ''Wheel'', Aircraft = ''N100'', MRO = ''FacilityA'',
       Warning = Some ''N/A'', Start_Date = 20089, End_Date = 20098,
       End_Date_native = Some 20098, PercentComplete = String ''0.5'' \<rparr>"

text \<open>A task that starts ten days after it ends.\<close>

definition task_late :: task where
  "task_late =
     \<lparr> Component_Group = ''Wheel'', Aircraft = ''N100'', MRO = ''FacilityA'',
       Warning = None, Start_Date = 10, End_Date = 0, End_Date_native = Some 0,
       PercentComplete = Null \<rparr>"

text \<open>Aircraft N1 is worked on in two facilities.\<close>

definition task_wheel :: task where
  "task_wheel =
     \<lparr> Component_Group = ''Wheel'', Aircraft = ''N1'', MRO = ''A'',
       Warning = None, Start_Date = 0, End_Date = 10, End_Date_native = Some 10,
       PercentComplete = Undefined \<rparr>"

definition task_seat :: task where
  "task_seat =
     \<lparr> Component_Group = ''Seat'', Aircraft = ''N2'', MRO = ''A'',
       Warning = None, Start_Date = 0, End_Date = 5, End_Date_native = Some 5,
       PercentComplete = Undefined \<rparr>"

definition task_door :: task where
  "task_door =
     \<lparr> Component_Group = ''Door'', Aircraft = ''N1'', MRO = ''B'',
       Warning = None, Start_Date = 0, End_Date = 1, End_Date_native = Some 1,
       PercentComplete = Undefined \<rparr>"

definition three_tasks :: "task list" where
  "three_tasks = [task_wheel, task_seat, task_door]"

text \<open>
  In one facility, two tasks of an aircraft named \<^verbatim>\<open>constructor\<close>, ending on days 10
  and 1, and between them a task of aircraft N2 ending on day 5.
\<close>

definition task_c10 :: task where
  "task_c10 =
     \<lparr> Component_Group = ''Wheel'', Aircraft = ''constructor'', MRO = ''A'',
       Warning = None, Start_Date = 0, End_Date = 10, End_Date_native = Some 10,
       PercentComplete = Undefined \<rparr>"

definition task_c1 :: task where
  "task_c1 =
     \<lparr> Component_Group = ''Door'', Aircraft = ''constructor'', MRO = ''A'',
       Warning = None, Start_Date = 0, End_Date = 1, End_Date_native = Some 1,
       PercentComplete = Undefined \<rparr>"

definition inherited_name_tasks :: "task list" where
  "inherited_name_tasks = [task_c10, task_seat, task_c1]"

text \<open>
  Two tasks of one aircraft whose end dates (days 10 and 1) are written in a form that
  \<^verbatim>\<open>parseISO\<close> reads and \<^verbatim>\<open>new Date\<close> does not, such as \<^verbatim>\<open>19700111\<close>.
\<close>

definition task_basic10 :: task where
  "task_basic10 =
     \<lparr> Component_Group = ''Wheel'', Aircraft = ''N1'', MRO = ''A'',
       Warning = None, Start_Date = 0, End_Date = 10, End_Date_native = None,
       PercentComplete = Undefined \<rparr>"

definition task_basic1 :: task where
  "task_basic1 =
     \<lparr> Component_Group = ''Door'', Aircraft = ''N1'', MRO = ''A'',
       Warning = None, Start_Date = 0, End_Date = 1, End_Date_native = None,
       PercentComplete = Undefined \<rparr>"

definition basic_format_tasks :: "task list" where
  "basic_format_tasks = [task_basic10, task_basic1]"



text \<open>
  A parser that answers as \<^verbatim>\<open>JSON.parse\<close> does on the bodies used below (it throws on
  the empty string and on a lone brace), a platform on which every browser call
  succeeds, and a world with no browser running.
\<close>

definition sample_JSON_parse :: "string \<Rightarrow> parsed_body option" where
  \<open>sample_JSON_parse s =
     (if s = ''{}'' then Some BodyNoTasks
      else if s = ''null'' then Some BodyNull
      else if s = ''{"tasks":[]}'' then Some (BodyTasks [])
      else if s = ''{"tasks":[A]}'' then Some (BodyTasks [task_A])
      else None)\<close>

definition sample_platform :: platform where
  "sample_platform =
     \<lparr> executablePath = Inr ''/tmp/chromium'', JSON_parse = sample_JSON_parse,
       launch_ok = True, newPage_ok = True, setContent_ok = True,
       screenshot = Inr ''iVBORw0KGgo='', close_ok = True,
       builder_runtime = runtime_on V2 20095 \<rparr>"

definition idle :: world where
  "idle = \<lparr> browsers_running = 0, buildHTML_calls = 0 \<rparr>"

section \<open>Theorems\<close>

subsection \<open>Access gate\<close>

lemma authorize_unconfigured:
  "policy_Effect (authorize None \<lparr> headers = Map.empty, routeArn = None \<rparr>) = Allow"
  by (simp add: authorize_def)

text \<open>
  Claim C6. With a configured secret \<open>s\<close>, the gate answers Allow, tagged with the
  trusted principal, exactly when the header \<^verbatim>\<open>x-api-key\<close> is present and equal to \<open>s\<close>;
  in every other case (header missing or different) it answers Deny.
\<close>

theorem authorize_allow_iff:
  "(policy_Effect (authorize (Some s) ev) = Allow \<longleftrightarrow> headers ev ''x-api-key'' = Some s)
   \<and> (policy_Effect (authorize (Some s) ev) = Deny \<longleftrightarrow> headers ev ''x-api-key'' \<noteq> Some s)
   \<and> (context_user (authorize (Some s) ev) = ''trusted-client''
        \<longleftrightarrow> headers ev ''x-api-key'' = Some s)
   \<and> (headers ev ''x-api-key'' = None \<longrightarrow> policy_Effect (authorize (Some s) ev) = Deny)"
  by (simp add: authorize_def)

theorem authorize_allow_iff_witness:
  "headers \<lparr> headers = Map.empty, routeArn = None \<rparr> ''x-api-key'' = None
   \<and> policy_Effect (authorize (Some ''k'') \<lparr> headers = Map.empty, routeArn = None \<rparr>) = Deny
   \<and> policy_Effect (authorize (Some ''k'')
        \<lparr> headers = [''x-api-key'' \<mapsto> ''k''], routeArn = None \<rparr>) = Allow"
  using authorize_allow_iff [of "''k''" "\<lparr> headers = Map.empty, routeArn = None \<rparr>"]
    authorize_allow_iff [of "''k''" "\<lparr> headers = [''x-api-key'' \<mapsto> ''k''], routeArn = None \<rparr>"]
  by simp

subsection \<open>Date grid\<close>

lemma fold_min_Some:
  "fold (\<lambda>d result. case result of None \<Rightarrow> Some d | Some r \<Rightarrow> if r > d then Some d else Some r) ds (Some r)
   = Some (fold min ds (r::int))"
  by (induction ds arbitrary: r) (simp_all add: min_def)

lemma min_dates_Min: "ds \<noteq> [] \<Longrightarrow> min_dates ds = Some (Min (set ds))"
proof (cases ds)
  case Nil
  assume "ds \<noteq> []"
  with Nil show ?thesis by simp
next
  case (Cons d ds')
  have "min_dates ds = Some (fold min ds' d)"
    by (simp add: Cons min_dates_def fold_min_Some)
  also have "fold min ds' d = Min (set ds)"
    unfolding Cons by (rule Min.set_eq_fold[symmetric])
  finally show ?thesis .
qed

lemma fold_max_Some:
  "fold (\<lambda>d result. case result of None \<Rightarrow> Some d | Some r \<Rightarrow> if r < d then Some d else Some r) ds (Some r)
   = Some (fold max ds (r::int))"
  by (induction ds arbitrary: r) (simp_all add: max_def)

lemma max_dates_Max: "ds \<noteq> [] \<Longrightarrow> max_dates ds = Some (Max (set ds))"
proof (cases ds)
  case Nil
  assume "ds \<noteq> []"
  with Nil show ?thesis by simp
next
  case (Cons d ds')
  have "max_dates ds = Some (fold max ds' d)"
    by (simp add: Cons max_dates_def fold_max_Some)
  also have "fold max ds' d = Max (set ds)"
    unfolding Cons by (rule Max.set_eq_fold[symmetric])
  finally show ?thesis .
qed

lemma min_dates_Nil: "min_dates [] = None" and max_dates_Nil: "max_dates [] = None"
  by (simp_all add: min_dates_def max_dates_def)

lemma filter_indexed_upto:
  "filter_indexed p [a..b] k = filter (\<lambda>d. p d (k + nat (d - a))) [a..b]"
proof (induction "nat (b - a + 1)" arbitrary: a k)
  case 0
  then show ?case by simp
next
  case (Suc n)
  then have le: "a \<le> b" by simp
  have n: "n = nat (b - (a + 1) + 1)" using Suc.hyps(2) by simp
  have idx: "Suc k + nat (x - (a + 1)) = k + nat (x - a)" if "a + 1 \<le> x" for x
    using that by simp
  have tail: "filter (\<lambda>d. p d (Suc k + nat (d - (a + 1)))) [a + 1..b]
            = filter (\<lambda>d. p d (k + nat (d - a))) [a + 1..b]"
    by (rule filter_cong) (simp_all only: idx set_upto atLeastAtMost_iff)
  show ?case
    using Suc.hyps(1)[OF n, of "Suc k"] le tail
    by (simp add: upto_rec1[of a b])
qed


lemma full_range:
  assumes "tasks \<noteq> []"
  shows "eachDayOfInterval v (addDays (min_dates (map Start_Date tasks)) (- 3))
           (addDays (max_dates (map End_Date tasks)) 3)
         = (if lower_bound tasks \<le> upper_bound tasks
            then Inr [lower_bound tasks..upper_bound tasks]
            else (case v of V2 \<Rightarrow> Inl RangeError
                  | V3 \<Rightarrow> Inr (rev [upper_bound tasks..lower_bound tasks])))"
  using assms unfolding lower_bound_def upper_bound_def
  by (cases v) (simp_all add: eachDayOfInterval_def addDays_def min_dates_Min max_dates_Max)

lemma sample_upto:
  "filter_indexed (\<lambda>d i. i mod 2 = 0 \<or> d = today) [lo..hi] 0 = sampled_days lo hi today"
proof -
  have "(0 + nat (d - lo)) mod 2 = 0 \<longleftrightarrow> even (d - lo)" if "lo \<le> d" for d
    using that even_nat_iff[of "d - lo"] by (simp flip: even_iff_mod_2_eq_zero)
  then show ?thesis
    unfolding sampled_days_def filter_indexed_upto
    by (intro filter_cong refl) simp
qed

lemma getTimelineRange_grid_aux:
  assumes "tasks \<noteq> []" and "lower_bound tasks \<le> upper_bound tasks"
  shows "getTimelineRange rt tasks
           = Inr (sampled_days (lower_bound tasks) (upper_bound tasks) (now_range rt))"
  using assms by (simp add: getTimelineRange_def full_range sample_upto)

text \<open>
  Claim C1, for the task lists whose earliest start minus three days is not after the
  latest end plus three days (any list with a task that starts no later than it ends).
  The grid is the sequence of the days of the closed interval from the lower to the
  upper bound, in order, whose offset from the lower bound is even or that are today;
  if today lies in the interval, it is in the grid.
\<close>

theorem getTimelineRange_grid:
  assumes "tasks \<noteq> []" and "lower_bound tasks \<le> upper_bound tasks"
  shows "getTimelineRange rt tasks
           = Inr (sampled_days (lower_bound tasks) (upper_bound tasks) (now_range rt))
         \<and> (\<forall>d \<in> set [lower_bound tasks..upper_bound tasks].
               d = now_range rt \<longrightarrow>
               d \<in> set (sampled_days (lower_bound tasks) (upper_bound tasks) (now_range rt)))"
proof
  show "getTimelineRange rt tasks
          = Inr (sampled_days (lower_bound tasks) (upper_bound tasks) (now_range rt))"
    using assms by (rule getTimelineRange_grid_aux)
  show "\<forall>d \<in> set [lower_bound tasks..upper_bound tasks].
          d = now_range rt \<longrightarrow>
          d \<in> set (sampled_days (lower_bound tasks) (upper_bound tasks) (now_range rt))"
    by (simp add: sampled_days_def)
qed

theorem getTimelineRange_grid_witness:
  "[task_A] \<noteq> [] \<and> lower_bound [task_A] \<le> upper_bound [task_A]
   \<and> getTimelineRange (runtime_on V2 20095) [task_A]
       = Inr [20086, 20088, 20090, 20092, 20094, 20095, 20096, 20098, 20100]"
  using getTimelineRange_grid [of "[task_A]" "runtime_on V2 20095"]
  by (simp add: lower_bound_def upper_bound_def sampled_days_def task_A_def runtime_on_def)

text \<open>
  On a list whose only task starts ten days after it ends, the lower bound (day 7) is
  after the upper bound (day 3) and the interval of the claim is empty. The builder
  does not return the empty grid: under date-fns 2 it throws, under later releases it
  returns the days from 7 down to 3, sampled.
\<close>

theorem getTimelineRange_late_counterexample:
  "getTimelineRange (runtime_on V2 0) [task_late]
     \<noteq> Inr (sampled_days (lower_bound [task_late]) (upper_bound [task_late]) 0)
   \<and> getTimelineRange (runtime_on V3 0) [task_late]
     \<noteq> Inr (sampled_days (lower_bound [task_late]) (upper_bound [task_late]) 0)
   \<and> getTimelineRange (runtime_on V2 0) [task_late] = Inl RangeError
   \<and> getTimelineRange (runtime_on V3 0) [task_late] = Inr [7, 5, 3]"
  by (simp add: getTimelineRange_def eachDayOfInterval_def addDays_def min_dates_def
      max_dates_def lower_bound_def upper_bound_def sampled_days_def task_late_def runtime_on_def)

subsection \<open>Sorting\<close>

lemma note_earliest_apply:
  "note_earliest m k e x =
     (if x = k then Some (case m k of None \<Rightarrow> e | Some cur \<Rightarrow> if slot_less e cur then e else cur)
      else m x)"
  by (simp add: note_earliest_def split: option.split)

lemma fold_note_earliest_at:
  "fold (\<lambda>t m. note_earliest m (k t) (DateObj (End_Date_native t))) tasks m0 x =
     fold (\<lambda>t r. if k t = x
                  then Some (case r of None \<Rightarrow> DateObj (End_Date_native t)
                             | Some cur \<Rightarrow> if slot_less (DateObj (End_Date_native t)) cur
                                          then DateObj (End_Date_native t) else cur)
                  else r) tasks (m0 x)"
    (is "fold ?step tasks m0 x = fold ?g tasks (m0 x)")
proof (induction tasks arbitrary: m0)
  case Nil
  show ?case by simp
next
  case (Cons t ts)
  have "fold ?step (t # ts) m0 x
      = fold ?g ts (note_earliest m0 (k t) (DateObj (End_Date_native t)) x)"
    by (simp add: Cons)
  also have "note_earliest m0 (k t) (DateObj (End_Date_native t)) x = ?g t (m0 x)"
    by (auto simp: note_earliest_apply)
  also have "fold ?g ts (?g t (m0 x)) = fold ?g (t # ts) (m0 x)"
    by simp
  finally show ?case .
qed

lemma fold_keep_min_Some:
  assumes "native_dates_agree tasks"
  shows "fold (\<lambda>t r. if k t = x
                  then Some (case r of None \<Rightarrow> DateObj (End_Date_native t)
                             | Some cur \<Rightarrow> if slot_less (DateObj (End_Date_native t)) cur
                                          then DateObj (End_Date_native t) else cur)
                  else r) tasks (Some (DateObj (Some c)))
         = Some (DateObj (Some (fold min (map End_Date (filter (\<lambda>u. k u = x) tasks)) c)))"
  using assms
proof (induction tasks arbitrary: c)
  case Nil
  show ?case by simp
next
  case (Cons t ts)
  then have t: "End_Date_native t = Some (End_Date t)" and ts: "native_dates_agree ts"
    by (simp_all add: native_dates_agree_def)
  show ?case
    by (simp add: Cons.IH[OF ts] t slot_less_def min_def)
qed

lemma fold_keep_min_None:
  assumes "native_dates_agree tasks"
  shows "fold (\<lambda>t r. if k t = x
                  then Some (case r of None \<Rightarrow> DateObj (End_Date_native t)
                             | Some cur \<Rightarrow> if slot_less (DateObj (End_Date_native t)) cur
                                          then DateObj (End_Date_native t) else cur)
                  else r) tasks None
         = (case map End_Date (filter (\<lambda>u. k u = x) tasks) of
              [] \<Rightarrow> None
            | e # es \<Rightarrow> Some (DateObj (Some (fold min es e))))"
  using assms
proof (induction tasks)
  case Nil
  show ?case by simp
next
  case (Cons t ts)
  then have t: "End_Date_native t = Some (End_Date t)" and ts: "native_dates_agree ts"
    by (simp_all add: native_dates_agree_def)
  show ?case
    by (simp add: Cons.IH[OF ts] t fold_keep_min_Some[OF ts])
qed

lemma earliest_lookup:
  assumes "t \<in> set tasks" and "native_dates_agree tasks"
    and "k t \<notin> set Object_prototype_names"
  shows "fold (\<lambda>t m. note_earliest m (k t) (DateObj (End_Date_native t))) tasks empty_object (k t)
           = Some (DateObj (Some (min_end (\<lambda>u. k u = k t) tasks)))"
proof -
  from assms(1) have "filter (\<lambda>u. k u = k t) tasks \<noteq> []"
    by (auto simp: filter_empty_conv)
  then obtain e es where es: "map End_Date (filter (\<lambda>u. k u = k t) tasks) = e # es"
    by (cases "map End_Date (filter (\<lambda>u. k u = k t) tasks)") auto
  have "fold min es e = Min (set (e # es))"
    by (rule Min.set_eq_fold[symmetric])
  moreover have empty: "empty_object (k t) = None"
    using assms(3) by (simp add: empty_object_def)
  ultimately show ?thesis
    unfolding fold_note_earliest_at empty fold_keep_min_None[OF assms(2)] min_end_def es
    by simp
qed

lemma earliest_split:
  "fold (\<lambda>t (earliestAc, earliestMro).
            (note_earliest earliestAc (Aircraft t) (DateObj (End_Date_native t)),
             note_earliest earliestMro (MRO t) (DateObj (End_Date_native t)))) tasks (a, m)
   = (fold (\<lambda>t m. note_earliest m (Aircraft t) (DateObj (End_Date_native t))) tasks a,
      fold (\<lambda>t m. note_earliest m (MRO t) (DateObj (End_Date_native t))) tasks m)"
  by (induction tasks arbitrary: a m) simp_all

lemma compare_tasks_key:
  assumes "a \<in> set tasks" "b \<in> set tasks"
    and keys: "plain_keys tasks" and dates: "native_dates_agree tasks"
  shows "nan_as_zero (compare_tasks (fst (earliest tasks)) (snd (earliest tasks)) a b) \<le> 0
           \<longleftrightarrow> builder_key tasks a \<le> builder_key tasks b"
proof -
  from keys assms(1,2) have names:
    "MRO a \<notin> set Object_prototype_names" "Aircraft a \<notin> set Object_prototype_names"
    "MRO b \<notin> set Object_prototype_names" "Aircraft b \<notin> set Object_prototype_names"
    by (auto simp: plain_keys_def list_all_iff)
  from dates assms(1,2) have native:
    "End_Date_native a = Some (End_Date a)" "End_Date_native b = Some (End_Date b)"
    by (auto simp: native_dates_agree_def list_all_iff)
  note lookups =
    earliest_lookup[where k = MRO, OF assms(1) dates names(1)]
    earliest_lookup[where k = Aircraft, OF assms(1) dates names(2)]
    earliest_lookup[where k = MRO, OF assms(2) dates names(3)]
    earliest_lookup[where k = Aircraft, OF assms(2) dates names(4)]
  show ?thesis
    by (auto simp: earliest_def earliest_split compare_tasks_def slot_diff_def truthy_diff_def
        nan_as_zero_def lookups native builder_key_def less_eq_prod_def Let_def)
qed

lemma insert_by_insort:
  assumes "\<forall>y \<in> set ys. nan_as_zero (cmp x y) \<le> 0 \<longleftrightarrow> key x \<le> key y"
  shows "insert_by cmp x ys = insort_key key x ys"
  using assms by (induction ys) simp_all

lemma array_sort_sort_key:
  assumes "\<forall>x \<in> set xs. \<forall>y \<in> set xs. nan_as_zero (cmp x y) \<le> 0 \<longleftrightarrow> key x \<le> key y"
  shows "array_sort cmp xs = sort_key key xs"
  using assms
proof (induction xs)
  case Nil
  show ?case by (simp add: array_sort_def)
next
  case (Cons x xs)
  then have IH: "array_sort cmp xs = sort_key key xs" by simp
  have "insert_by cmp x (sort_key key xs) = insort_key key x (sort_key key xs)"
    using Cons.prems by (intro insert_by_insort) simp
  with IH show ?case by (simp add: array_sort_def)
qed

lemma sort_tasks_sort_key:
  assumes "plain_keys tasks" and "native_dates_agree tasks"
  shows "sort_tasks tasks = sort_key (builder_key tasks) tasks"
proof -
  have "array_sort (compare_tasks (fst (earliest tasks)) (snd (earliest tasks))) tasks
          = sort_key (builder_key tasks) tasks"
    using assms by (intro array_sort_sort_key ballI compare_tasks_key)
  then show ?thesis by (simp add: sort_tasks_def case_prod_beta)
qed

lemma set_insert_by: "set (insert_by cmp x ys) = insert x (set ys)"
  by (induction ys) auto

lemma set_array_sort: "set (array_sort cmp xs) = set xs"
  by (induction xs) (simp_all add: array_sort_def set_insert_by)

subsection \<open>Rows\<close>

lemma buildHTML_eq: "buildHTML rt tasks = render_sorted rt (sort_tasks tasks)"
  by (simp add: buildHTML_def buildHTML_store_def alloc_def sort_in_place_def Let_def)

lemma body_rows_task_rows:
  "filter is_task_row (body_rows rt grid lastMro lastAc ts) = map (task_row rt grid) ts"
  by (induction ts arbitrary: lastMro lastAc) (simp_all add: Let_def task_row_def)

lemma buildHTML_Inr:
  assumes "buildHTML rt tasks = Inr doc"
  shows "\<exists>grid. getTimelineRange rt (sort_tasks tasks) = Inr grid \<and> grid \<noteq> []
            \<and> tbody doc = body_rows rt grid [] [] (sort_tasks tasks)"
  using assms
  by (auto simp: buildHTML_eq render_sorted_def generateMonthHeader_def Let_def
      split: sum.splits list.splits)


lemma row_cells_end:
  "length grid \<le> i \<Longrightarrow> row_cells n2s grid today s e wc pct i placed = []"
  by (subst row_cells.simps) simp

lemma row_cells_skip:
  assumes "i < length grid" and "placed \<or> \<not> (s \<le> grid ! i \<and> grid ! i \<le> e)"
  shows "row_cells n2s grid today s e wc pct i placed
           = Td (grid ! i = today) # row_cells n2s grid today s e wc pct (i + 1) placed"
  using assms by (subst row_cells.simps) auto

lemma row_cells_bar:
  assumes "i < length grid" and "s \<le> grid ! i" and "grid ! i \<le> e"
  shows "row_cells n2s grid today s e wc pct i False
           = fill_cell n2s (length (filter (\<lambda>dt. s \<le> dt \<and> dt \<le> e) grid)) wc pct
             # row_cells n2s grid today s e wc pct
                 (i + length (filter (\<lambda>dt. s \<le> dt \<and> dt \<le> e) grid)) True"
  using assms by (subst row_cells.simps) simp

lemma row_cells_placed:
  "row_cells n2s grid today s e wc pct i True = map (\<lambda>d. Td (d = today)) (drop i grid)"
proof (induction "length grid - i" arbitrary: i)
  case 0
  then show ?case by (simp add: row_cells_end)
next
  case (Suc n)
  then have i: "i < length grid" and n: "n = length grid - (i + 1)" by simp_all
  show ?case
    using Suc.hyps(1)[OF n] i
    by (simp add: row_cells_skip Cons_nth_drop_Suc[symmetric])
qed

lemma row_cells_outside:
  assumes "\<forall>d \<in> set grid. \<not> (s \<le> d \<and> d \<le> e)"
  shows "row_cells n2s grid today s e wc pct i False = map (\<lambda>d. Td (d = today)) (drop i grid)"
proof (induction "length grid - i" arbitrary: i)
  case 0
  then show ?case by (simp add: row_cells_end)
next
  case (Suc n)
  then have i: "i < length grid" and n: "n = length grid - (i + 1)" by simp_all
  from i assms have out: "\<not> (s \<le> grid ! i \<and> grid ! i \<le> e)" by (meson nth_mem)
  show ?case
    using Suc.hyps(1)[OF n] i
    by (simp add: row_cells_skip[OF i disjI2[OF out]] Cons_nth_drop_Suc[symmetric])
qed

lemma row_cells_block:
  assumes grid: "grid = A @ B @ C" and B: "B \<noteq> []"
    and A_out: "\<forall>d \<in> set A. \<not> (s \<le> d \<and> d \<le> e)"
    and B_in: "\<forall>d \<in> set B. s \<le> d \<and> d \<le> e"
    and C_out: "\<forall>d \<in> set C. \<not> (s \<le> d \<and> d \<le> e)"
    and i: "i \<le> length A"
  shows "row_cells n2s grid today s e wc pct i False
           = map (\<lambda>d. Td (d = today)) (drop i A)
             @ fill_cell n2s (length B) wc pct # map (\<lambda>d. Td (d = today)) C"
  using i
proof (induction "length A - i" arbitrary: i)
  case 0
  then have i: "i = length A" by simp
  have count: "filter (\<lambda>dt. s \<le> dt \<and> dt \<le> e) grid = B"
    using A_out B_in C_out by (simp add: grid filter_empty_conv filter_id_conv)
  have here: "grid ! i = hd B" "i < length grid"
    using B by (simp_all add: grid i nth_append hd_conv_nth)
  have inside: "s \<le> grid ! i" "grid ! i \<le> e"
    using here B B_in by simp_all
  have rest: "drop (i + length B) grid = C" by (simp add: grid i)
  show ?case
    unfolding row_cells_bar[OF here(2) inside] count row_cells_placed rest
    by (simp add: i)
next
  case (Suc n)
  then have i: "i < length A" and n: "n = length A - (i + 1)" by simp_all
  have here: "grid ! i = A ! i" "i < length grid" using i by (simp_all add: grid nth_append)
  have out: "\<not> (s \<le> grid ! i \<and> grid ! i \<le> e)" using A_out i here by simp
  show ?case
    using Suc.hyps(1)[OF n] i
    by (simp add: row_cells_skip[OF here(2) disjI2[OF out]] here(1)
        Cons_nth_drop_Suc[symmetric])
qed

lemma sorted_three_parts:
  fixes grid :: "int list"
  assumes "sorted grid" and "s \<le> e"
  shows "grid = filter (\<lambda>d. d < s) grid @ filter (\<lambda>d. s \<le> d \<and> d \<le> e) grid
                 @ filter (\<lambda>d. e < d) grid"
  using assms(1)
proof (induction grid)
  case Nil
  show ?case by simp
next
  case (Cons x xs)
  then have IH: "xs = filter (\<lambda>d. d < s) xs @ filter (\<lambda>d. s \<le> d \<and> d \<le> e) xs
                        @ filter (\<lambda>d. e < d) xs"
    and above: "\<forall>y \<in> set xs. x \<le> y" by simp_all
  consider "x < s" | "s \<le> x" "x \<le> e" | "e < x" by linarith
  then show ?case
  proof cases
    case 1
    with \<open>s \<le> e\<close> IH show ?thesis by simp
  next
    case 2
    with above have "filter (\<lambda>d. d < s) xs = []" by (auto simp: filter_empty_conv)
    with 2 IH show ?thesis by simp
  next
    case 3
    with above \<open>s \<le> e\<close> have "filter (\<lambda>d. d < s) xs = []"
      "filter (\<lambda>d. s \<le> d \<and> d \<le> e) xs = []" "filter (\<lambda>d. e < d) xs = xs"
      by (auto simp: filter_empty_conv filter_id_conv)
    with 3 \<open>s \<le> e\<close> show ?thesis by simp
  qed
qed

lemma descending_three_parts:
  fixes grid :: "int list"
  assumes "sorted (rev grid)" and "s \<le> e"
  shows "grid = filter (\<lambda>d. e < d) grid @ filter (\<lambda>d. s \<le> d \<and> d \<le> e) grid
                 @ filter (\<lambda>d. d < s) grid"
proof -
  have "rev (rev grid) = rev (filter (\<lambda>d. d < s) (rev grid)
          @ filter (\<lambda>d. s \<le> d \<and> d \<le> e) (rev grid) @ filter (\<lambda>d. e < d) (rev grid))"
    using sorted_three_parts[OF assms] by simp
  then show ?thesis by (simp add: rev_filter)
qed

lemma monotone_block:
  fixes grid :: "int list"
  assumes "sorted grid \<or> sorted (rev grid)"
    and "\<exists>d \<in> set grid. s \<le> d \<and> d \<le> e"
  shows "\<exists>A C. grid = A @ filter (\<lambda>d. s \<le> d \<and> d \<le> e) grid @ C
           \<and> (\<forall>d \<in> set A. \<not> (s \<le> d \<and> d \<le> e)) \<and> (\<forall>d \<in> set C. \<not> (s \<le> d \<and> d \<le> e))"
proof -
  from assms(2) have se: "s \<le> e" by auto
  from assms(1) show ?thesis
  proof
    assume "sorted grid"
    from sorted_three_parts[OF this se] show ?thesis
      by (intro exI[of _ "filter (\<lambda>d. d < s) grid"] exI[of _ "filter (\<lambda>d. e < d) grid"]) auto
  next
    assume "sorted (rev grid)"
    from descending_three_parts[OF this se] show ?thesis
      by (intro exI[of _ "filter (\<lambda>d. e < d) grid"] exI[of _ "filter (\<lambda>d. d < s) grid"]) auto
  qed
qed

lemma columns_append: "columns (xs @ ys) = columns xs @ columns ys"
  by (induction xs rule: columns.induct) simp_all

lemma columns_Td: "columns (map (\<lambda>d. Td (f d)) xs) = replicate (length xs) False"
  by (induction xs) simp_all

lemma map_const: "\<forall>x \<in> set xs. f x = c \<Longrightarrow> map f xs = replicate (length xs) c"
  by (induction xs) simp_all

lemma filter_fill_Td: "filter is_fill (map (\<lambda>d. Td (f d)) xs) = []"
  by (induction xs) simp_all

lemma row_cells_monotone:
  assumes mono: "sorted grid \<or> sorted (rev grid)"
  shows "columns (row_cells n2s grid today s e wc pct 0 False) = map (\<lambda>d. s \<le> d \<and> d \<le> e) grid
    \<and> length (filter is_fill (row_cells n2s grid today s e wc pct 0 False)) \<le> 1
    \<and> (filter is_fill (row_cells n2s grid today s e wc pct 0 False) = []
         \<longleftrightarrow> (\<forall>d \<in> set grid. \<not> (s \<le> d \<and> d \<le> e)))"
proof (cases "\<exists>d \<in> set grid. s \<le> d \<and> d \<le> e")
  case False
  then have out: "\<forall>d \<in> set grid. \<not> (s \<le> d \<and> d \<le> e)" by simp
  have "map (\<lambda>d. s \<le> d \<and> d \<le> e) grid = replicate (length grid) False"
    using out by (intro map_const) simp
  then show ?thesis
    using out by (simp add: row_cells_outside[OF out] columns_Td filter_fill_Td)
next
  case True
  let ?B = "filter (\<lambda>d. s \<le> d \<and> d \<le> e) grid"
  from monotone_block[OF mono True] obtain A C where
    grid: "grid = A @ ?B @ C"
    and A: "\<forall>d \<in> set A. \<not> (s \<le> d \<and> d \<le> e)" and C: "\<forall>d \<in> set C. \<not> (s \<le> d \<and> d \<le> e)"
    by blast
  from True have B: "?B \<noteq> []" by (auto simp: filter_empty_conv)
  have B_in: "\<forall>d \<in> set ?B. s \<le> d \<and> d \<le> e" by simp
  have cells: "row_cells n2s grid today s e wc pct 0 False
      = map (\<lambda>d. Td (d = today)) A @ fill_cell n2s (length ?B) wc pct # map (\<lambda>d. Td (d = today)) C"
    using row_cells_block[OF grid B A B_in C, where i = 0 and today = today and wc = wc
        and pct = pct and ?n2s = n2s] by simp
  have "map (\<lambda>d. s \<le> d \<and> d \<le> e) grid
      = map (\<lambda>d. s \<le> d \<and> d \<le> e) A @ map (\<lambda>d. s \<le> d \<and> d \<le> e) ?B
        @ map (\<lambda>d. s \<le> d \<and> d \<le> e) C"
    by (subst grid) simp
  also have "map (\<lambda>d. s \<le> d \<and> d \<le> e) A = replicate (length A) False"
    using A by (intro map_const) simp
  also have "map (\<lambda>d. s \<le> d \<and> d \<le> e) C = replicate (length C) False"
    using C by (intro map_const) simp
  also have "map (\<lambda>d. s \<le> d \<and> d \<le> e) ?B = replicate (length ?B) True"
    by (intro map_const) simp
  finally have cols: "map (\<lambda>d. s \<le> d \<and> d \<le> e) grid
      = replicate (length A) False @ replicate (length ?B) True @ replicate (length C) False" .
  show ?thesis
    using True
    by (simp add: cells cols columns_append columns_Td fill_cell_def filter_fill_Td)
qed


lemma set_filter_indexed: "set (filter_indexed p xs k) \<subseteq> set xs"
  by (induction xs arbitrary: k) auto

lemma sorted_wrt_filter_indexed:
  "sorted_wrt R xs \<Longrightarrow> sorted_wrt R (filter_indexed p xs k)"
proof (induction xs arbitrary: k)
  case Nil
  show ?case by simp
next
  case (Cons x xs)
  then show ?case using set_filter_indexed[of p xs "Suc k"] by auto
qed

lemma getTimelineRange_monotone:
  assumes "getTimelineRange rt tasks = Inr grid"
  shows "sorted grid \<or> sorted (rev grid)"
proof -
  obtain full where full: "eachDayOfInterval (datefns_release rt)
        (addDays (min_dates (map Start_Date tasks)) (- 3))
        (addDays (max_dates (map End_Date tasks)) 3) = Inr full"
    and grid: "grid = filter_indexed (\<lambda>d i. i mod 2 = 0 \<or> d = now_range rt) full 0"
    using assms by (auto simp: getTimelineRange_def split: sum.splits)
  have "sorted full \<or> sorted_wrt (\<lambda>x y. y \<le> x) full"
    using full
    by (auto simp: eachDayOfInterval_def sorted_wrt_rev
        split: option.splits if_splits datefns.splits)
  then show ?thesis
    unfolding grid sorted_wrt_rev by (auto intro: sorted_wrt_filter_indexed)
qed

lemma set_sort_tasks: "set (sort_tasks tasks) = set tasks"
  by (simp add: sort_tasks_def case_prod_beta set_array_sort)

text \<open>
  Claim C3. In the document that the builder returns, the row of every task occupies
  the grid columns left to right so that the columns under its bar are exactly the
  columns whose day lies in the task's closed interval from start to end; a row has at
  most one bar cell, and none exactly when no grid day lies in the interval.
\<close>

theorem bar_spans_interval:
  assumes "buildHTML rt tasks = Inr doc"
  shows "\<exists>grid. getTimelineRange rt (sort_tasks tasks) = Inr grid
     \<and> list_all2
         (\<lambda>t r. columns (cells r) = map (\<lambda>d. Start_Date t \<le> d \<and> d \<le> End_Date t) grid
            \<and> length (filter is_fill (cells r)) \<le> 1
            \<and> (filter is_fill (cells r) = []
                 \<longleftrightarrow> (\<forall>d \<in> set grid. \<not> (Start_Date t \<le> d \<and> d \<le> End_Date t))))
         (sort_tasks tasks) (filter is_task_row (tbody doc))"
proof -
  from buildHTML_Inr[OF assms] obtain grid where
    grid: "getTimelineRange rt (sort_tasks tasks) = Inr grid"
    and body: "tbody doc = body_rows rt grid [] [] (sort_tasks tasks)"
    by blast
  have mono: "sorted grid \<or> sorted (rev grid)"
    by (rule getTimelineRange_monotone[OF grid])
  have rows: "filter is_task_row (tbody doc) = map (task_row rt grid) (sort_tasks tasks)"
    by (simp add: body body_rows_task_rows)
  have "list_all2
         (\<lambda>t r. columns (cells r) = map (\<lambda>d. Start_Date t \<le> d \<and> d \<le> End_Date t) grid
            \<and> length (filter is_fill (cells r)) \<le> 1
            \<and> (filter is_fill (cells r) = []
                 \<longleftrightarrow> (\<forall>d \<in> set grid. \<not> (Start_Date t \<le> d \<and> d \<le> End_Date t))))
         (sort_tasks tasks) (map (task_row rt grid) (sort_tasks tasks))"
    unfolding list_all2_map2
    by (rule list.rel_refl_strong)
      (simp only: task_row_def Let_def row.sel row_cells_monotone[OF mono] simp_thms)
  with grid rows show ?thesis by auto
qed

lemma buildHTML_returns:
  assumes "tasks \<noteq> []" and "lower_bound tasks \<le> upper_bound tasks"
  shows "\<exists>doc. buildHTML rt tasks = Inr doc"
proof -
  have ne: "sort_tasks tasks \<noteq> []" using assms(1) set_sort_tasks[of tasks] by fastforce
  have lo: "lower_bound (sort_tasks tasks) = lower_bound tasks"
    and hi: "upper_bound (sort_tasks tasks) = upper_bound tasks"
    by (simp_all add: lower_bound_def upper_bound_def set_sort_tasks)
  have grid: "getTimelineRange rt (sort_tasks tasks)
      = Inr (sampled_days (lower_bound tasks) (upper_bound tasks) (now_range rt))"
    using getTimelineRange_grid_aux[OF ne, of rt] assms(2) by (simp add: lo hi)
  have "lower_bound tasks \<in> set (sampled_days (lower_bound tasks) (upper_bound tasks) (now_range rt))"
    using assms(2) by (simp add: sampled_days_def)
  then have "sampled_days (lower_bound tasks) (upper_bound tasks) (now_range rt) \<noteq> []"
    by auto
  then show ?thesis
    by (auto simp: buildHTML_eq render_sorted_def grid generateMonthHeader_def Let_def
        split: list.splits)
qed

subsection \<open>Render order\<close>

text \<open>
  Claim C2, as the code has it. On a task list in which no facility or aircraft is
  named like a member that every object inherits and every end date is read by
  \<^verbatim>\<open>new Date\<close> as the day that \<^verbatim>\<open>parseISO\<close> reads, the builder renders the tasks in the
  order of a stable sort by three keys compared in turn: the least end date of the
  task's facility, the least end date among all tasks with the task's aircraft (in
  whatever facility), and the task's own end date. The result is a permutation of the
  input, ascending in the key triple, and tasks with equal triples keep their input
  order. The task rows of the returned document are the rows of the tasks in that order.
\<close>

theorem build_order:
  assumes "plain_keys tasks" and "native_dates_agree tasks"
  shows "sort_tasks tasks = sort_key (builder_key tasks) tasks
   \<and> mset (sort_tasks tasks) = mset tasks
   \<and> sorted (map (builder_key tasks) (sort_tasks tasks))
   \<and> (\<forall>k. filter (\<lambda>t. builder_key tasks t = k) (sort_tasks tasks)
            = filter (\<lambda>t. builder_key tasks t = k) tasks)
   \<and> (\<forall>doc. buildHTML rt tasks = Inr doc \<longrightarrow>
         (\<exists>grid. getTimelineRange rt (sort_tasks tasks) = Inr grid
            \<and> filter is_task_row (tbody doc) = map (task_row rt grid) (sort_tasks tasks)))"
proof -
  have "\<exists>grid. getTimelineRange rt (sort_tasks tasks) = Inr grid
            \<and> filter is_task_row (tbody doc) = map (task_row rt grid) (sort_tasks tasks)"
    if "buildHTML rt tasks = Inr doc" for doc
    using buildHTML_Inr[OF that] by (auto simp: body_rows_task_rows)
  then show ?thesis
    by (simp add: sort_tasks_sort_key[OF assms] sort_key_stable)
qed

theorem build_order_witness:
  "plain_keys three_tasks \<and> native_dates_agree three_tasks
   \<and> buildHTML (runtime_on V2 3) three_tasks
     = Inr (projr (buildHTML (runtime_on V2 3) three_tasks))
   \<and> sort_tasks three_tasks = [task_door, task_wheel, task_seat]
   \<and> (\<exists>grid. getTimelineRange (runtime_on V2 3) (sort_tasks three_tasks) = Inr grid
         \<and> filter is_task_row (tbody (projr (buildHTML (runtime_on V2 3) three_tasks)))
             = map (task_row (runtime_on V2 3) grid) [task_door, task_wheel, task_seat])"
proof -
  have keys: "plain_keys three_tasks" by code_simp
  have dates: "native_dates_agree three_tasks" by code_simp
  have returns: "buildHTML (runtime_on V2 3) three_tasks
      = Inr (projr (buildHTML (runtime_on V2 3) three_tasks))"
    by code_simp
  have sorted: "sort_key (builder_key three_tasks) three_tasks
      = [task_door, task_wheel, task_seat]"
    by code_simp
  from build_order[OF keys dates, of "runtime_on V2 3"] keys dates returns sorted
  show ?thesis by metis
qed

text \<open>
  Aircraft N1 has a task in facility A (ending on day 10) and one in facility B (ending
  on day 1); aircraft N2 has a task in facility A ending on day 5. Within facility A the
  specification's key of the pair (A, N1) is 10, so N2 would come first; the builder's
  key of N1 is 1, and it renders N1 first. With an aircraft named \<^verbatim>\<open>constructor\<close> the
  dictionary holds no date for it, the aircraft keys do not count, and the builder
  orders the facility's tasks by their own end dates. With end dates that \<^verbatim>\<open>new Date\<close>
  does not read, every comparison is \<open>NaN\<close> and the builder keeps the input order.
\<close>

theorem build_order_counterexample:
  "buildHTML (runtime_on V2 3) three_tasks
     = Inr (projr (buildHTML (runtime_on V2 3) three_tasks))
   \<and> map component_cell
        (filter is_task_row (tbody (projr (buildHTML (runtime_on V2 3) three_tasks))))
      = [''Door'', ''Wheel'', ''Seat'']
   \<and> map Component_Group (spec_order three_tasks) = [''Door'', ''Seat'', ''Wheel'']
   \<and> buildHTML (runtime_on V2 3) inherited_name_tasks
     = Inr (projr (buildHTML (runtime_on V2 3) inherited_name_tasks))
   \<and> map component_cell
        (filter is_task_row (tbody (projr (buildHTML (runtime_on V2 3) inherited_name_tasks))))
      = [''Door'', ''Seat'', ''Wheel'']
   \<and> map Component_Group (spec_order inherited_name_tasks) = [''Door'', ''Wheel'', ''Seat'']
   \<and> buildHTML (runtime_on V2 3) basic_format_tasks
     = Inr (projr (buildHTML (runtime_on V2 3) basic_format_tasks))
   \<and> map component_cell
        (filter is_task_row (tbody (projr (buildHTML (runtime_on V2 3) basic_format_tasks))))
      = [''Wheel'', ''Door'']
   \<and> map Component_Group (spec_order basic_format_tasks) = [''Door'', ''Wheel'']"
  by code_simp

theorem bar_spans_interval_witness:
  "buildHTML (runtime_on V2 20095) [task_A]
     = Inr (projr (buildHTML (runtime_on V2 20095) [task_A]))
   \<and> map (\<lambda>r. columns (cells r))
        (filter is_task_row (tbody (projr (buildHTML (runtime_on V2 20095) [task_A]))))
      = [[False, False, True, True, True, True, True, True, False]]
   \<and> (\<exists>grid. getTimelineRange (runtime_on V2 20095) (sort_tasks [task_A]) = Inr grid
     \<and> list_all2
         (\<lambda>t r. columns (cells r) = map (\<lambda>d. Start_Date t \<le> d \<and> d \<le> End_Date t) grid
            \<and> length (filter is_fill (cells r)) \<le> 1
            \<and> (filter is_fill (cells r) = []
                 \<longleftrightarrow> (\<forall>d \<in> set grid. \<not> (Start_Date t \<le> d \<and> d \<le> End_Date t))))
         (sort_tasks [task_A])
         (filter is_task_row (tbody (projr (buildHTML (runtime_on V2 20095) [task_A])))))"
proof -
  have returns: "buildHTML (runtime_on V2 20095) [task_A]
      = Inr (projr (buildHTML (runtime_on V2 20095) [task_A]))"
    by code_simp
  have cols: "map (\<lambda>r. columns (cells r))
        (filter is_task_row (tbody (projr (buildHTML (runtime_on V2 20095) [task_A]))))
      = [[False, False, True, True, True, True, True, True, False]]"
    by code_simp
  from bar_spans_interval[OF returns] returns cols show ?thesis by blast
qed

subsection \<open>Double arithmetic\<close>

lemma bitlen_powi:
  assumes "0 < a"
  shows "2 powi (bitlen a - 1) \<le> (of_int a :: rat)" and "(of_int a :: rat) < 2 powi (bitlen a)"
proof -
  from assms have pos: "1 \<le> bitlen a" by (auto simp: bitlen_alt_def)
  from bitlen_bounds[OF assms] have lo: "2 ^ nat (bitlen a - 1) \<le> a" and hi: "a < 2 ^ nat (bitlen a)"
    by simp_all
  have "(of_int (2 ^ nat (bitlen a - 1)) :: rat) \<le> of_int a"
    using lo by (simp only: of_int_le_iff)
  then show "2 powi (bitlen a - 1) \<le> (of_int a :: rat)"
    using pos by (simp add: power_int_def)
  have "(of_int a :: rat) < of_int (2 ^ nat (bitlen a))"
    using hi by (simp only: of_int_less_iff)
  then show "(of_int a :: rat) < 2 powi (bitlen a)"
    using pos by (simp add: power_int_def)
qed

lemma binade_bounds:
  assumes "0 < x"
  shows "2 powi (binade x) \<le> x" and "x < 2 powi (binade x + 1)"
proof -
  obtain a b where q: "quotient_of x = (a, b)" by (cases "quotient_of x")
  then have b: "0 < b" and x: "x = of_int a / of_int b"
    by (simp_all add: quotient_of_denom_pos quotient_of_div)
  from assms b x have a: "0 < a" by (simp add: zero_less_divide_iff)
  have bq: "(0::rat) < of_int b" using b by simp
  note A = bitlen_powi[OF a] and B = bitlen_powi[OF b]
  let ?e0 = "bitlen a - bitlen b"
  have low: "2 powi (?e0 - 1) \<le> x"
  proof -
    have "?e0 - 1 = (bitlen a - 1) - bitlen b" by simp
    then have "(2::rat) powi (?e0 - 1) = 2 powi (bitlen a - 1) / 2 powi (bitlen b)"
      by (simp only: power_int_diff[of "2::rat"] simp_thms numeral_neq_zero zero_neq_numeral)
    also have "\<dots> \<le> of_int a / 2 powi (bitlen b)"
      using A(1) by (simp add: divide_right_mono)
    also have "\<dots> \<le> of_int a / of_int b"
      using B(2) a bq by (simp add: frac_le)
    finally show ?thesis by (simp add: x)
  qed
  have high: "x < 2 powi (?e0 + 1)"
  proof -
    have "x < 2 powi (bitlen a) / of_int b"
      unfolding x using A(2) bq by (simp add: divide_strict_right_mono)
    also have "\<dots> \<le> 2 powi (bitlen a) / 2 powi (bitlen b - 1)"
      using B(1) by (simp add: frac_le)
    also have "\<dots> = 2 powi (bitlen a - (bitlen b - 1))"
      by (rule power_int_diff[symmetric]) simp
    also have "bitlen a - (bitlen b - 1) = ?e0 + 1" by simp
    finally show ?thesis .
  qed
  show "2 powi (binade x) \<le> x"
    using low by (simp add: binade_def q Let_def)
  show "x < 2 powi (binade x + 1)"
    using high by (auto simp: binade_def q Let_def not_le)
qed


lemma round_half_even_le:
  assumes "y \<le> of_int n"
  shows "round_half_even y \<le> n"
proof -
  have f: "\<lfloor>y\<rfloor> \<le> n" using assms by (simp add: floor_le_iff)
  have "\<lfloor>y\<rfloor> < n" if "0 < y - of_int \<lfloor>y\<rfloor>"
  proof -
    from that have "of_int \<lfloor>y\<rfloor> < y" by simp
    with assms have "(of_int \<lfloor>y\<rfloor> :: rat) < of_int n" by simp
    then show ?thesis by (simp only: of_int_less_iff)
  qed
  with f show ?thesis
    by (auto simp: round_half_even_def Let_def)
qed




lemma round_half_even_ge:
  assumes "of_int n \<le> y"
  shows "n \<le> round_half_even y"
proof -
  have "n \<le> \<lfloor>y\<rfloor>" using assms by (simp add: le_floor_iff)
  then show ?thesis by (auto simp: round_half_even_def Let_def)
qed

text \<open>
  The test for an infinity in \<open>to_double\<close> is that the rounded magnitude reaches
  \<open>2^1024\<close>.
\<close>

lemma to_double_overflow_iff:
  assumes "0 < a"
  defines "e \<equiv> max (binade a) (- 1022)"
  defines "m \<equiv> round_half_even (a / 2 powi (e - 52))"
  shows "(1024 \<le> e \<or> (e = 1023 \<and> m = 2 ^ 53)) \<longleftrightarrow> 2 powi 1024 \<le> (of_int m * 2 powi (e - 52) :: rat)"
proof -
  let ?q = "(2::rat) powi (e - 52)"
  have q0: "0 < ?q" by simp
  have scale: "2 powi k / ?q = 2 powi (k - (e - 52))" for k
    by (rule power_int_diff[symmetric]) simp
  have "a < 2 powi (e + 1)"
  proof -
    have "a < 2 powi (binade a + 1)" by (rule binade_bounds(2)[OF assms(1)])
    also have "\<dots> \<le> 2 powi (e + 1)"
      by (intro power_int_increasing) (simp_all add: e_def)
    finally show ?thesis .
  qed
  then have "a / ?q \<le> 2 powi (e + 1) / ?q" using q0 by (simp add: divide_right_mono)
  also have "\<dots> = of_int (2 ^ 53)" unfolding scale by simp
  finally have "m \<le> 2 ^ 53" unfolding m_def by (rule round_half_even_le)
  then have up: "(of_int m :: rat) \<le> 2 ^ 53"
    by (metis of_int_le_iff of_int_numeral of_int_power)
  show ?thesis
  proof
    assume "1024 \<le> e \<or> (e = 1023 \<and> m = 2 ^ 53)"
    then show "2 powi 1024 \<le> of_int m * ?q"
    proof
      assume big: "1024 \<le> e"
      then have eb: "e = binade a" by (simp add: e_def)
      have "2 powi e / ?q \<le> a / ?q"
        unfolding eb using binade_bounds(1)[OF assms(1)] q0 eb by (simp add: divide_right_mono)
      moreover have "2 powi e / ?q = of_int (2 ^ 52)" unfolding scale by simp
      ultimately have "2 ^ 52 \<le> m" unfolding m_def by (simp only: round_half_even_ge)
      then have "(2 :: rat) ^ 52 \<le> of_int m"
        by (metis of_int_le_iff of_int_numeral of_int_power)
      then have step: "2 ^ 52 * ?q \<le> of_int m * ?q" using q0 by (simp add: mult_right_mono)
      have "(2::rat) powi 1024 \<le> 2 powi e"
        using big by (intro power_int_increasing) simp_all
      also have "(2::rat) powi e = 2 ^ 52 * ?q"
        using power_int_add[of "2::rat" 52 "e - 52"] by simp
      also note step
      finally show ?thesis .
    next
      assume "e = 1023 \<and> m = 2 ^ 53"
      then have "of_int m * ?q = 2 ^ 53 * 2 powi 971" by simp
      also have "\<dots> = 2 powi 1024"
        using power_int_add[of "2::rat" 53 971] by simp
      finally show ?thesis by simp
    qed
  next
    assume over: "2 powi 1024 \<le> of_int m * ?q"
    show "1024 \<le> e \<or> (e = 1023 \<and> m = 2 ^ 53)"
    proof (rule ccontr)
      assume neg: "\<not> (1024 \<le> e \<or> (e = 1023 \<and> m = 2 ^ 53))"
      then have e: "e \<le> 1023" by simp
      have "53 + (e - 52) = e + 1" by simp
      then have pw: "(2::rat) ^ 53 * ?q = 2 powi (e + 1)"
        using power_int_add[of "2::rat" 53 "e - 52"] by (simp only: power_int_numeral) simp
      show False
      proof (cases "e = 1023")
        case True
        with neg have "m \<noteq> 2 ^ 53" by simp
        with \<open>m \<le> 2 ^ 53\<close> have "m \<le> 2 ^ 53 - 1" by simp
        then have "(of_int m :: rat) \<le> of_int (2 ^ 53 - 1)" by (simp only: of_int_le_iff)
        then have "of_int m * ?q \<le> of_int (2 ^ 53 - 1) * ?q"
          using q0 by (simp add: mult_right_mono)
        also have "\<dots> = 2 ^ 53 * ?q - ?q" by (simp add: left_diff_distrib)
        also have "\<dots> < 2 ^ 53 * ?q" using q0 by simp
        also have "\<dots> = 2 powi 1024" unfolding pw using True by simp
        finally show False using over by simp
      next
        case False
        with e have "e + 1 \<le> 1023" by simp
        have "of_int m * ?q \<le> 2 ^ 53 * ?q" using up q0 by (simp add: mult_right_mono)
        also have "\<dots> = 2 powi (e + 1)" by (rule pw)
        also have "\<dots> \<le> 2 powi 1023"
          using \<open>e + 1 \<le> 1023\<close> by (intro power_int_increasing) simp_all
        also have "\<dots> < 2 powi 1024"
          by (intro power_int_strict_increasing) simp_all
        finally show False using over by simp
      qed
    qed
  qed
qed


text \<open>
  The product in doubles is not the exact one: for the double nearest to 0.29 it is
  just below 29, for the one nearest to 0.35 it is 35, and for the one nearest to
  0.0015 it is just below 0.15.
\<close>

lemma times100_examples:
  "Math_floor (times100 (to_double (29 / 100))) = Num 28"
  "Math_floor (times100 (to_double (35 / 100))) = Num 35"
  "toFixed1 sample_NumberToString (times100 (to_double (15 / 10000))) = ''0.1''"
  by code_simp+

subsection \<open>Completion bar\<close>

lemma row_cells_fill:
  assumes "c \<in> set (row_cells n2s grid today s e wc pct i placed)" and "is_fill c"
  shows "\<exists>n. c = fill_cell n2s n wc pct"
  using assms(1)
proof (induction "length grid - i" arbitrary: i placed rule: less_induct)
  case less
  show ?case
  proof (cases "i < length grid")
    case False
    with less.prems show ?thesis by (simp add: row_cells_end)
  next
    case True
    show ?thesis
    proof (cases "placed \<or> \<not> (s \<le> grid ! i \<and> grid ! i \<le> e)")
      case skip: True
      from less.prems assms(2)
      have "c \<in> set (row_cells n2s grid today s e wc pct (i + 1) placed)"
        by (auto simp: row_cells_skip[OF True skip])
      with less.hyps[of "i + 1" placed] True show ?thesis by simp
    next
      case bar: False
      let ?n = "length (filter (\<lambda>dt. s \<le> dt \<and> dt \<le> e) grid)"
      from bar have p: "placed = False" and inside: "s \<le> grid ! i" "grid ! i \<le> e" by auto
      from less.prems have "c = fill_cell n2s ?n wc pct
          \<or> c \<in> set (row_cells n2s grid today s e wc pct (i + ?n) True)"
        unfolding p row_cells_bar[OF True inside] by simp
      then show ?thesis
        using assms(2) by (auto simp: row_cells_placed)
    qed
  qed
qed

lemma task_row_fill:
  assumes "c \<in> set (cells (task_row rt grid t))" and "is_fill c"
  shows "\<exists>n. c = fill_cell (NumberToString rt) n (warnClass (Warning t))
                 (pct_of (StringToNumber rt) t)"
  using assms row_cells_fill by (simp add: task_row_def Let_def)

lemma toFixed1_zero: "toFixed1 n2s (Num 0) = ''0.0''"
  by (simp add: toFixed1_def decimal.simps)




text \<open>
  Claim C10. For a task whose completion is absent, or coerces to \<open>NaN\<close> or to \<open>0\<close>, the
  completion fraction is \<open>0\<close>: the bar of its row is of the in-progress variant, its fill
  width is 0 percent and its label reads \<^verbatim>\<open>0.0%\<close>.
\<close>

theorem percent_defaults_to_zero:
  assumes "PercentComplete t = Undefined
      \<or> to_number (StringToNumber rt) (PercentComplete t) = NaN
      \<or> to_number (StringToNumber rt) (PercentComplete t) = Num 0"
    and "c \<in> set (cells (task_row rt grid t))" and "is_fill c"
  shows "pct_of (StringToNumber rt) t = Num 0
    \<and> \<not> complete c \<and> width_percent c = Num 0 \<and> percent_label c = ''0.0%''"
proof -
  from assms(1) have pct: "pct_of (StringToNumber rt) t = Num 0"
    by (auto simp: pct_of_def to_number_def)
  from task_row_fill[OF assms(2,3)] obtain n where
    c: "c = fill_cell (NumberToString rt) n (warnClass (Warning t)) (Num 0)"
    unfolding pct by blast
  show ?thesis
    by (simp add: pct c fill_cell_def toFixed1_zero times100_def to_double_def Math_floor_def
        ge_one_def)
qed

theorem percent_defaults_to_zero_witness:
  "PercentComplete task_door = Undefined
   \<and> FillCell 1 [] False (Num 0) ''0.0%''
       \<in> set (cells (task_row (runtime_on V2 3) [- 3, - 1, 1, 3] task_door))
   \<and> is_fill (FillCell 1 [] False (Num 0) ''0.0%'')
   \<and> pct_of (StringToNumber (runtime_on V2 3)) task_door = Num 0"
proof -
  have absent: "PercentComplete task_door = Undefined
      \<or> to_number (StringToNumber (runtime_on V2 3)) (PercentComplete task_door) = NaN
      \<or> to_number (StringToNumber (runtime_on V2 3)) (PercentComplete task_door) = Num 0"
    by (simp add: task_door_def)
  have cell: "FillCell 1 [] False (Num 0) ''0.0%''
       \<in> set (cells (task_row (runtime_on V2 3) [- 3, - 1, 1, 3] task_door))"
    by code_simp
  from percent_defaults_to_zero[OF absent cell] cell show ?thesis
    by (simp add: task_door_def)
qed

subsection \<open>Severity of a row\<close>

text \<open>
  Claim C4, as the code has it. The class of the warning cell of a task's row and the
  class of the track of its bar are the task's severity class. That class is critical
  for the warning text \<^verbatim>\<open>Work Stoppage\<close> (two words); caution for any other non-empty
  text different from \<^verbatim>\<open>N/A\<close>; and empty for an absent or empty warning and for
  \<^verbatim>\<open>N/A\<close>.
\<close>

theorem severity_class:
  "warning_class (task_row rt grid t) = warnClass (Warning t)
   \<and> (\<forall>c \<in> set (cells (task_row rt grid t)). is_fill c \<longrightarrow> track_class c = warnClass (Warning t))
   \<and> warnClass (Some ''Work Stoppage'') = ''warning-critical''
   \<and> (\<forall>s. s \<noteq> ''Work Stoppage'' \<and> s \<noteq> [] \<and> s \<noteq> ''N/A''
          \<longrightarrow> warnClass (Some s) = ''warning-caution'')
   \<and> warnClass None = [] \<and> warnClass (Some []) = [] \<and> warnClass (Some ''N/A'') = []"
proof -
  have "track_class c = warnClass (Warning t)"
    if "c \<in> set (cells (task_row rt grid t))" "is_fill c" for c
    using task_row_fill[OF that] by (auto simp: fill_cell_def)
  then show ?thesis
    by (simp add: task_row_def Let_def warnClass_def truthy_str_def)
qed

theorem severity_class_witness:
  "''Caution'' \<noteq> ''Work Stoppage'' \<and> ''Caution'' \<noteq> [] \<and> ''Caution'' \<noteq> ''N/A''
   \<and> warnClass (Some ''Caution'') = ''warning-caution''
   \<and> FillCell 6 [] False (Num 50) ''50.0%''
       \<in> set (cells (task_row (runtime_on V2 20095)
                 [20086, 20088, 20090, 20092, 20094, 20095, 20096, 20098, 20100] task_A))
   \<and> is_fill (FillCell 6 [] False (Num 50) ''50.0%'')
   \<and> track_class (FillCell 6 [] False (Num 50) ''50.0%'') = warnClass (Warning task_A)"
proof -
  have cell: "FillCell 6 [] False (Num 50) ''50.0%''
       \<in> set (cells (task_row (runtime_on V2 20095)
                 [20086, 20088, 20090, 20092, 20094, 20095, 20096, 20098, 20100] task_A))"
    by code_simp
  from severity_class[of "runtime_on V2 20095"
      "[20086, 20088, 20090, 20092, 20094, 20095, 20096, 20098, 20100]" task_A] cell
  show ?thesis by (simp add: task_A_def warnClass_def truthy_str_def)
qed

text \<open>
  The warning text \<^verbatim>\<open>WorkStoppage\<close>, written as one word, is not the critical one:
  the builder gives it the caution class.
\<close>

theorem warnClass_WorkStoppage_counterexample:
  "warnClass (Some ''WorkStoppage'') \<noteq> ''warning-critical''
   \<and> warnClass (Some ''WorkStoppage'') = ''warning-caution''"
  by (simp add: warnClass_def truthy_str_def)

subsection \<open>The caller's array\<close>

text \<open>
  Claim C9. After a call of the builder on the array at address \<open>a\<close> the store holds at
  \<open>a\<close> the same records in the same order as before, and so does every array that
  existed before the call; the builder sorts the copy it allocated.
\<close>

theorem buildHTML_store_frame:
  assumes "a < length h"
  shows "snd (buildHTML_store rt (Some a) h) ! a = h ! a
    \<and> take (length h) (snd (buildHTML_store rt (Some a) h)) = h
    \<and> take (length h) (snd (buildHTML_store rt None h)) = h"
  using assms
  by (simp add: buildHTML_store_def alloc_def sort_in_place_def Let_def nth_append)


theorem buildHTML_store_frame_witness:
  "(0::nat) < length [three_tasks]
   \<and> snd (buildHTML_store (runtime_on V2 3) (Some 0) [three_tasks])
       = [three_tasks, [task_door, task_wheel, task_seat]]
   \<and> snd (buildHTML_store (runtime_on V2 3) (Some 0) [three_tasks]) ! 0 = [three_tasks] ! 0"
proof -
  have len: "(0::nat) < length [three_tasks]" by simp
  have after: "snd (buildHTML_store (runtime_on V2 3) (Some 0) [three_tasks])
       = [three_tasks, [task_door, task_wheel, task_seat]]"
    by code_simp
  from buildHTML_store_frame[OF len, of "runtime_on V2 3"] len after show ?thesis by simp
qed

subsection \<open>Render handler\<close>

text \<open>
  Claim C7, as the code has it. Once the Chromium path is resolved, the handler reads a
  missing or empty body as the empty object, and then: if the body parses to a value
  other than \<^verbatim>\<open>null\<close> whose \<^verbatim>\<open>tasks\<close> is absent or not an array, it answers 400 with
  the error \<^verbatim>\<open>Invalid or missing tasks array\<close>; if the body does not parse, it
  answers 400 with the error \<^verbatim>\<open>Malformed JSON\<close>. In both cases no browser is launched
  and the builder is not called: the world is unchanged.
\<close>

theorem render_rejects_bad_body:
  assumes "executablePath p = Inr path"
  shows "(JSON_parse p (or_default (body ev) ''{}'') = Some BodyNoTasks
          \<or> JSON_parse p (or_default (body ev) ''{}'') = Some BodyTasksNotArray
        \<longrightarrow> render p ev w = (Inr (client_error ''Invalid or missing tasks array''), w))
    \<and> (JSON_parse p (or_default (body ev) ''{}'') = None
        \<longrightarrow> render p ev w = (Inr (client_error ''Malformed JSON''), w))
    \<and> statusCode (client_error ''Invalid or missing tasks array'') = 400
    \<and> statusCode (client_error ''Malformed JSON'') = 400"
  using assms by (auto simp: render_def client_error_def)

theorem render_rejects_bad_body_witness:
  "executablePath sample_platform = Inr ''/tmp/chromium''
   \<and> JSON_parse sample_platform (or_default (body \<lparr> body = None \<rparr>) ''{}'') = Some BodyNoTasks
   \<and> render sample_platform \<lparr> body = None \<rparr> idle
       = (Inr (client_error ''Invalid or missing tasks array''), idle)
   \<and> JSON_parse sample_platform (or_default (body \<lparr> body = Some ''{'' \<rparr>) ''{}'') = None
   \<and> render sample_platform \<lparr> body = Some ''{'' \<rparr> idle
       = (Inr (client_error ''Malformed JSON''), idle)"
proof -
  have path: "executablePath sample_platform = Inr ''/tmp/chromium''"
    by (simp add: sample_platform_def)
  have absent: "JSON_parse sample_platform (or_default (body \<lparr> body = None \<rparr>) ''{}'')
      = Some BodyNoTasks"
    by (simp add: sample_platform_def sample_JSON_parse_def or_default_def)
  have broken: "JSON_parse sample_platform (or_default (body \<lparr> body = Some ''{'' \<rparr>) ''{}'')
      = None"
    by (simp add: sample_platform_def sample_JSON_parse_def or_default_def)
  from render_rejects_bad_body[OF path, of "\<lparr> body = None \<rparr>" idle]
    render_rejects_bad_body[OF path, of "\<lparr> body = Some ''{'' \<rparr>" idle]
    path absent broken
  show ?thesis by simp
qed

text \<open>
  The empty string is not parseable JSON, yet the handler answers it with the error
  for a missing array; \<^verbatim>\<open>null\<close> is valid JSON without a \<^verbatim>\<open>tasks\<close> field, yet the
  handler answers it with the error for malformed JSON.
\<close>

theorem render_body_counterexample:
  "JSON_parse sample_platform [] = None
   \<and> render sample_platform \<lparr> body = Some [] \<rparr> idle
       = (Inr (client_error ''Invalid or missing tasks array''), idle)
   \<and> render sample_platform \<lparr> body = Some [] \<rparr> idle
       \<noteq> (Inr (client_error ''Malformed JSON''), idle)
   \<and> JSON_parse sample_platform ''null'' = Some BodyNull
   \<and> render sample_platform \<lparr> body = Some ''null'' \<rparr> idle
       = (Inr (client_error ''Malformed JSON''), idle)
   \<and> render sample_platform \<lparr> body = Some ''null'' \<rparr> idle
       \<noteq> (Inr (client_error ''Invalid or missing tasks array''), idle)"
  by (simp add: render_def sample_platform_def sample_JSON_parse_def or_default_def
      client_error_def)

text \<open>
  Claim C8 at a failing input. On a body with an empty task array every browser call
  succeeds and the builder throws after the launch: the handler rejects with the
  browser still running. On the success path the browser is closed.
\<close>

theorem render_leaves_browser_running:
  \<open>render sample_platform \<lparr> body = Some ''{"tasks":[]}'' \<rparr> idle
     = (Inl RangeError, \<lparr> browsers_running = 1, buildHTML_calls = 1 \<rparr>)
   \<and> snd (render sample_platform \<lparr> body = Some ''{"tasks":[A]}'' \<rparr> idle)
     = \<lparr> browsers_running = 0, buildHTML_calls = 1 \<rparr>\<close>
  by code_simp

end
